theory Spec2Isabelle
  imports Complex_Main
begin

section \<open>Session engine of the mesh-radio client (aiomeshtastic/interface.py)\<close>

text \<open>
  A shallow embedding of \<^verbatim>\<open>custom_components/meshtastic/aiomeshtastic/interface.py\<close>.
  Python integers are \<^typ>\<open>int\<close>, strings are \<^typ>\<open>string\<close>, dictionaries are maps,
  every \<^verbatim>\<open>raise\<close> is an \<open>Inl\<close> of the exception raised, and mutation of \<^verbatim>\<open>self\<close>
  is explicit state passing.
\<close>

subsection \<open>Exceptions\<close>

datatype request_error_msg =
    NoAcknowledgement real    \<comment> \<open>"No acknowledgement received within {actual_timeout} seconds"\<close>
  | NoResponse real           \<comment> \<open>"No response received within {actual_timeout} seconds"\<close>

datatype py_error =
    ValueError string
  | IndexError
  | TypeError
  | AttributeError
  | CancelledError
  | MeshRoutingError nat
  | MeshInterfaceRequestError request_error_msg
  | OtherError string

subsection \<open>Python string helpers\<close>

text \<open>\<^verbatim>\<open>s[-4:]\<close>: the last four characters, or all of \<open>s\<close> when it is shorter.\<close>

definition last4 :: "string \<Rightarrow> string" where
  "last4 s = drop (length s - 4) s"

text \<open>A natural number in decimal, as an f-string prints it.\<close>

fun decimal :: "nat \<Rightarrow> string" where
  "decimal n =
     (if n < 10 then [''0123456789'' ! n] else decimal (n div 10) @ [''0123456789'' ! (n mod 10)])"

declare decimal.simps [simp del]

definition hex_digit :: "nat \<Rightarrow> char" where
  "hex_digit d = ''0123456789abcdef'' ! d"

text \<open>The lowercase hexadecimal digits of a natural number, most significant first.\<close>

fun hex :: "nat \<Rightarrow> string" where
  "hex n = (if n < 16 then [hex_digit n] else hex (n div 16) @ [hex_digit (n mod 16)])"

declare hex.simps [simp del]

definition zero_pad :: "nat \<Rightarrow> string \<Rightarrow> string" where
  "zero_pad w s = replicate (w - length s) CHR ''0'' @ s"

text \<open>
  The format specification \<^verbatim>\<open>08x\<close> of an f-string: lowercase hexadecimal, padded
  with zeros after the sign to a total width of at least eight.
\<close>

definition format_08x :: "int \<Rightarrow> string" where
  "format_08x n =
     (if n < 0 then CHR ''-'' # zero_pad 7 (hex (nat (- n))) else zero_pad 8 (hex (nat n)))"

text \<open>Reading a string of hexadecimal digits back, used to state what \<open>format_08x\<close> prints.\<close>

definition hex_digit_value :: "char \<Rightarrow> nat" where
  "hex_digit_value c =
     (let k = (of_char c :: nat) in if 48 \<le> k \<and> k \<le> 57 then k - 48 else k - 87)"

definition hex_value :: "string \<Rightarrow> nat" where
  "hex_value s = foldl (\<lambda>acc c. 16 * acc + hex_digit_value c) 0 s"

definition is_lower_hex :: "char \<Rightarrow> bool" where
  "is_lower_hex c \<longleftrightarrow> c \<in> set ''0123456789abcdef''"

subsection \<open>MeshNode and the node database\<close>

record MeshNode =
  id_num :: int
  user_id :: string
  short_name :: string
  long_name :: string

definition stub_node :: "int \<Rightarrow> MeshNode" where
  "stub_node node_id =
     (let user_id = CHR ''!'' # format_08x node_id
      in \<lparr>id_num = node_id, user_id = user_id, short_name = last4 user_id,
          long_name = ''Meshtastic '' @ last4 user_id\<rparr>)"

text \<open>
  An entry of \<^verbatim>\<open>_node_database\<close>: the keys the engine itself reads and writes.
  \<open>hasPKC\<close> is \<open>None\<close> when the key is absent from the dictionary.
\<close>

record user_dict =
  user_ident :: string      \<comment> \<open>key "id"\<close>
  longName :: string
  shortName :: string
  hwModel :: string

record node_dict =
  num :: int
  user :: user_dict
  hasPKC :: "bool option"

type_synonym node_database = "int \<rightharpoonup> node_dict"

definition BROADCAST_NUM :: int where
  "BROADCAST_NUM = 0xFFFFFFFF"

definition PKC_CHANNEL_INDEX :: int where
  "PKC_CHANNEL_INDEX = 8"

definition get_or_create_node :: "node_database \<Rightarrow> int \<Rightarrow> py_error + (node_dict \<times> node_database)" where
  "get_or_create_node db node_num =
     (if node_num = BROADCAST_NUM then Inl (ValueError ''Broadcast Num is no valid node num'')
      else case db node_num of
        Some n \<Rightarrow> Inr (n, db)
      | None \<Rightarrow>
          (let presumptive_id = CHR ''!'' # format_08x node_num;
               n = \<lparr>num = node_num,
                    user = \<lparr>user_ident = presumptive_id,
                            longName = ''Meshtastic '' @ last4 presumptive_id,
                            shortName = last4 presumptive_id,
                            hwModel = ''UNSET''\<rparr>,
                    hasPKC = None\<rparr>
           in Inr (n, db(node_num \<mapsto> n))))"

subsection \<open>Channels\<close>

text \<open>
  The fields of \<^verbatim>\<open>channel_pb2.Channel\<close> that the engine reads. The generated protobuf
  module is not part of the sources; its three roles are those of the protocol.
\<close>

datatype Role = DISABLED | PRIMARY | SECONDARY

record ChannelSettings =
  name :: string
  settings_id :: nat

record Channel =
  index :: int
  settings :: ChannelSettings
  role :: Role

text \<open>
  \<^verbatim>\<open>MeshChannel\<close>. The dataclass declares \<^verbatim>\<open>index: int\<close>, but \<^verbatim>\<open>find_channel\<close>
  passes its own \<^verbatim>\<open>index\<close> argument on, which is \<^verbatim>\<open>None\<close> in a lookup by name.
\<close>

record MeshChannel =
  mc_index :: "int option"
  mc_name :: string

text \<open>
  \<^verbatim>\<open>xs[i]\<close> on a Python list: a negative index counts from the end, and an index
  outside \<open>-len \<dots> len - 1\<close> raises \<^verbatim>\<open>IndexError\<close>.
\<close>

definition list_item :: "'a list \<Rightarrow> int \<Rightarrow> py_error + 'a" where
  "list_item xs i =
     (if 0 \<le> i then (if i < int (length xs) then Inr (xs ! nat i) else Inl IndexError)
      else if - int (length xs) \<le> i then Inr (xs ! nat (int (length xs) + i))
      else Inl IndexError)"

text \<open>
  \<^verbatim>\<open>str.lower()\<close>, on the letters \<open>A\<close> to \<open>Z\<close>. The engine only compares the result
  with \<^verbatim>\<open>"admin"\<close>, and no character outside \<open>A\<close> to \<open>Z\<close> is lowered to one of
  the letters of that word.
\<close>

definition lower_char :: "char \<Rightarrow> char" where
  "lower_char c =
     (let k = (of_char c :: nat) in if 65 \<le> k \<and> k \<le> 90 then char_of (k + 32) else c)"

definition lower :: "string \<Rightarrow> string" where
  "lower s = map lower_char s"

subsection \<open>The session: \<^verbatim>\<open>MeshInterface\<close>\<close>

text \<open>
  The protobuf messages the engine stores without looking inside them
  (\<^verbatim>\<open>DeviceMetadata\<close>, \<^verbatim>\<open>QueueStatus\<close>, the sub-messages of the configuration) are values
  of a type parameter \<open>'m\<close>.
\<close>

record MyNodeInfo =
  my_node_num :: int

record 'm LocalConfig =
  lc_device :: 'm
  lc_position :: 'm
  lc_power :: 'm
  lc_network :: 'm
  lc_display :: 'm
  lc_lora :: 'm
  lc_bluetooth :: 'm
  lc_security :: 'm

record 'm LocalModuleConfig =
  lm_mqtt :: 'm
  lm_serial :: 'm
  lm_external_notification :: 'm
  lm_store_forward :: 'm
  lm_range_test :: 'm
  lm_telemetry :: 'm
  lm_canned_message :: 'm
  lm_audio :: 'm
  lm_remote_hardware :: 'm
  lm_neighbor_info :: 'm
  lm_detection_sensor :: 'm
  lm_ambient_lighting :: 'm
  lm_paxcounter :: 'm

text \<open>
  The attributes of \<^verbatim>\<open>self\<close>. The two \<^verbatim>\<open>asyncio.Event\<close>s are their flags; tasks and
  stream listeners are objects of the runtime, held here by their identities.
\<close>

record 'm MeshInterface =
  is_running :: bool
  connected_node_ready :: bool
  connected_node_info :: "MyNodeInfo option"
  connected_node_metadata :: "'m option"
  connected_node_channels :: "Channel list option"
  connected_node_queue_status :: "'m option"
  connected_node_local_config :: "'m LocalConfig"
  connected_node_module_config :: "'m LocalModuleConfig"
  node_database :: node_database
  no_nodes :: bool
  ack_timeout :: real
  response_timeout :: real
  processing_tasks :: "nat set"
  background_tasks :: "nat set"
  packet_stream_listeners :: "nat list"
  heartbeat_interval_s :: real

subsection \<open>Queries of the local device\<close>

definition connected_node :: "'m MeshInterface \<Rightarrow> py_error + node_dict option" where
  "connected_node self =
     (if \<not> connected_node_ready self then Inr None
      else case connected_node_info self of
        None \<Rightarrow> Inl AttributeError
      | Some info \<Rightarrow> Inr (node_database self (my_node_num info)))"

definition connected_node_metadata_query :: "'m MeshInterface \<Rightarrow> 'm option" where
  "connected_node_metadata_query self =
     (if \<not> connected_node_ready self then None else connected_node_metadata self)"

definition connected_node_channels_query :: "'m MeshInterface \<Rightarrow> Channel list option" where
  "connected_node_channels_query self =
     (if \<not> connected_node_ready self then None else connected_node_channels self)"

definition connected_node_local_config_query :: "'m MeshInterface \<Rightarrow> 'm LocalConfig option" where
  "connected_node_local_config_query self =
     (if \<not> connected_node_ready self then None else Some (connected_node_local_config self))"

definition connected_node_module_config_query ::
  "'m MeshInterface \<Rightarrow> 'm LocalModuleConfig option" where
  "connected_node_module_config_query self =
     (if \<not> connected_node_ready self then None else Some (connected_node_module_config self))"

text \<open>
  \<^verbatim>\<open>_start_config\<close> up to its \<^verbatim>\<open>await\<close>: the ready flag is cleared and the snapshot
  reset before the configuration is requested.
\<close>

definition start_config_reset :: "'m MeshInterface \<Rightarrow> 'm MeshInterface" where
  "start_config_reset self =
     self\<lparr>connected_node_ready := False,
          connected_node_info := None,
          connected_node_metadata := None,
          connected_node_channels := Some [],
          connected_node_queue_status := None,
          node_database := Map.empty\<rparr>"

text \<open>
  \<^verbatim>\<open>_start_config\<close>, given how \<^verbatim>\<open>request_config\<close> of the connection ends: with an
  exception (which leaves the flag cleared) or normally.
\<close>

definition start_config ::
  "'m MeshInterface \<Rightarrow> py_error option \<Rightarrow> py_error option \<times> 'm MeshInterface" where
  "start_config self request_config =
     (let self = start_config_reset self
      in case request_config of
           Some e \<Rightarrow> (Some e, self)
         | None \<Rightarrow> (None, self\<lparr>connected_node_ready := True\<rparr>))"

subsection \<open>Channel lookup\<close>

definition find_channel ::
  "'m MeshInterface \<Rightarrow> int option \<Rightarrow> string option \<Rightarrow> py_error + MeshChannel option" where
  "find_channel self idx nm =
     (if idx = None \<and> nm = None then Inl (ValueError ''Most provide index or name'')
      else if connected_node_info self = None then Inr None
      else case connected_node_channels self of
        None \<Rightarrow> Inl TypeError
      | Some channels \<Rightarrow>
          (case idx of
            Some i \<Rightarrow>
              if int (length channels) < i then Inr None
              else (case list_item channels i of
                Inl e \<Rightarrow> Inl e
              | Inr channel \<Rightarrow>
                  if role channel = DISABLED then Inr None
                  else if nm \<noteq> None \<and> Some (name (settings channel)) \<noteq> nm then Inr None
                  else Inr (Some \<lparr>mc_index = idx, mc_name = name (settings channel)\<rparr>))
          | None \<Rightarrow>
              (case find (\<lambda>channel_info. Some (name (settings channel_info)) = nm
                            \<and> role channel_info \<noteq> DISABLED) channels of
                None \<Rightarrow> Inr None
              | Some channel \<Rightarrow>
                  Inr (Some \<lparr>mc_index = idx, mc_name = name (settings channel)\<rparr>))))"

subsection \<open>Admin channel selection\<close>

text \<open>\<^verbatim>\<open>self._node_database.get(node, {}).get("hasPKC", False)\<close>, as a truth value.\<close>

definition has_pkc :: "node_database \<Rightarrow> int \<Rightarrow> bool" where
  "has_pkc db node =
     (case db node of
        None \<Rightarrow> False
      | Some n \<Rightarrow> (case hasPKC n of None \<Rightarrow> False | Some b \<Rightarrow> b))"

text \<open>
  The loop over the channels. A protobuf message is always true as a condition, so
  \<^verbatim>\<open>c.settings and \<dots>\<close> tests the name alone.
\<close>

fun first_admin_channel :: "Channel list \<Rightarrow> int" where
  "first_admin_channel [] = 0"
| "first_admin_channel (c # cs) =
     (if lower (name (settings c)) = ''admin'' then index c else first_admin_channel cs)"

definition get_admin_channel_index :: "'m MeshInterface \<Rightarrow> int \<Rightarrow> py_error + int" where
  "get_admin_channel_index self node =
     (case connected_node_info self of
        None \<Rightarrow> Inl AttributeError
      | Some info \<Rightarrow>
          if node = my_node_num info then Inr 0
          else if has_pkc (node_database self) (my_node_num info)
                  \<and> has_pkc (node_database self) node
          then Inr PKC_CHANNEL_INDEX
          else Inr (first_admin_channel
                      (case connected_node_channels self of None \<Rightarrow> [] | Some cs \<Rightarrow> cs)))"

subsection \<open>Sending a text message\<close>

datatype destination =
    DestNode MeshNode
  | DestChannel MeshChannel
  | DestStr string
  | DestInt int
  | DestOther   \<comment> \<open>\<^verbatim>\<open>None\<close>, the default, or a value of any other type\<close>

datatype Priority = DEFAULT | RELIABLE

datatype PortNum = TEXT_MESSAGE_APP | ADMIN_APP | TELEMETRY_APP

text \<open>The arguments of one call of \<^verbatim>\<open>send_mesh_packet\<close> on the connection.\<close>

record mesh_packet_call =
  arg_channel_index :: "int option"
  arg_to_node :: int
  arg_message :: string
  arg_port_num :: PortNum
  arg_priority :: Priority
  arg_want_response :: bool
  arg_ack :: bool

text \<open>
  The first part of \<^verbatim>\<open>send_text_message\<close>: the node and the channel index in effect.
  \<open>int_hex\<close> is Python's \<^verbatim>\<open>int(s, 16)\<close>, which raises \<^verbatim>\<open>ValueError\<close> on a string
  that is no hexadecimal number.
\<close>

definition resolve_destination ::
  "(string \<Rightarrow> py_error + int) \<Rightarrow> destination \<Rightarrow> int option \<Rightarrow> py_error + (int \<times> int option)" where
  "resolve_destination int_hex destination channel_index =
     (case destination of
        DestNode n \<Rightarrow> Inr (id_num n, None)
      | DestChannel c \<Rightarrow> Inr (BROADCAST_NUM, mc_index c)
      | DestStr s \<Rightarrow>
          if s = ''^all'' then Inr (BROADCAST_NUM, channel_index)
          else if \<not> (s \<noteq> [] \<and> hd s = CHR ''!'') then Inl (ValueError ''Not a valid user id'')
          else (case int_hex (tl s) of
                  Inl e \<Rightarrow> Inl e
                | Inr to_node \<Rightarrow> Inr (to_node, channel_index))
      | DestInt i \<Rightarrow> Inr (i, channel_index)
      | DestOther \<Rightarrow> Inr (BROADCAST_NUM, channel_index))"

text \<open>The check of the channel index, which raises or lets the send go on.\<close>

definition check_channel_index :: "'m MeshInterface \<Rightarrow> int option \<Rightarrow> py_error option" where
  "check_channel_index self channel_index =
     (case channel_index of
        None \<Rightarrow> None
      | Some i \<Rightarrow>
          (case connected_node_channels self of
            None \<Rightarrow> Some TypeError
          | Some channels \<Rightarrow>
              if int (length channels) < i then Some (ValueError ''Unavailable channel index'')
              else (case list_item channels i of
                Inl e \<Rightarrow> Some e
              | Inr channel \<Rightarrow>
                  if role channel = DISABLED
                  then Some (ValueError (''Channel '' @ name (settings channel) @ '' (''
                               @ decimal (settings_id (settings channel)) @ '') is disabled''))
                  else None)))"

text \<open>
  \<^verbatim>\<open>send_text_message\<close>. \<open>send_mesh_packet\<close> is the connection's answer to a call; the
  result pairs what the method returns or raises with the calls it made on the
  connection, in order.
\<close>

definition send_text_message ::
  "'m MeshInterface \<Rightarrow> (string \<Rightarrow> py_error + int) \<Rightarrow> (mesh_packet_call \<Rightarrow> py_error + 'r) \<Rightarrow>
   string \<Rightarrow> destination \<Rightarrow> bool \<Rightarrow> int option \<Rightarrow> (py_error + 'r) \<times> mesh_packet_call list" where
  "send_text_message self int_hex send_mesh_packet text destination want_ack channel_index =
     (case resolve_destination int_hex destination channel_index of
        Inl e \<Rightarrow> (Inl e, [])
      | Inr (to_node, channel_index) \<Rightarrow>
          (case check_channel_index self channel_index of
            Some e \<Rightarrow> (Inl e, [])
          | None \<Rightarrow>
              (let call = \<lparr>arg_channel_index = channel_index,
                           arg_to_node = to_node,
                           arg_message = text,
                           arg_port_num = TEXT_MESSAGE_APP,
                           arg_priority = (if want_ack then RELIABLE else DEFAULT),
                           arg_want_response = False,
                           arg_ack = want_ack\<rparr>
               in (send_mesh_packet call, [call]))))"

subsection \<open>A session used in the examples\<close>

definition example_channels :: "Channel list" where
  "example_channels =
     [\<lparr>index = 0, settings = \<lparr>name = ''LongFast'', settings_id = 1\<rparr>, role = PRIMARY\<rparr>,
      \<lparr>index = 1, settings = \<lparr>name = ''Admin'', settings_id = 2\<rparr>, role = SECONDARY\<rparr>,
      \<lparr>index = 2, settings = \<lparr>name = ''old'', settings_id = 3\<rparr>, role = DISABLED\<rparr>]"

definition example_node :: "int \<Rightarrow> bool option \<Rightarrow> node_dict" where
  "example_node n pkc =
     \<lparr>num = n,
      user = \<lparr>user_ident = CHR ''!'' # format_08x n, longName = ''Node'', shortName = ''N'',
              hwModel = ''UNSET''\<rparr>,
      hasPKC = pkc\<rparr>"

definition example_session :: "nat MeshInterface" where
  "example_session =
     \<lparr>is_running = True,
      connected_node_ready = True,
      connected_node_info = Some \<lparr>my_node_num = 1\<rparr>,
      connected_node_metadata = Some 7,
      connected_node_channels = Some example_channels,
      connected_node_queue_status = None,
      connected_node_local_config =
        \<lparr>lc_device = 0, lc_position = 0, lc_power = 0, lc_network = 0, lc_display = 0,
         lc_lora = 0, lc_bluetooth = 0, lc_security = 0\<rparr>,
      connected_node_module_config =
        \<lparr>lm_mqtt = 0, lm_serial = 0, lm_external_notification = 0, lm_store_forward = 0,
         lm_range_test = 0, lm_telemetry = 0, lm_canned_message = 0, lm_audio = 0,
         lm_remote_hardware = 0, lm_neighbor_info = 0, lm_detection_sensor = 0,
         lm_ambient_lighting = 0, lm_paxcounter = 0\<rparr>,
      node_database =
        [1 \<mapsto> example_node 1 (Some True), 2 \<mapsto> example_node 2 (Some True),
         3 \<mapsto> example_node 3 None],
      no_nodes = False,
      ack_timeout = 30,
      response_timeout = 60,
      processing_tasks = {0, 1},
      background_tasks = {2},
      packet_stream_listeners = [0, 1],
      heartbeat_interval_s = 600\<rparr>"

subsection \<open>Merging configuration messages into the snapshot\<close>

text \<open>
  An inbound \<^verbatim>\<open>config_pb2.Config\<close>: for each sub-message, \<open>None\<close> when
  \<^verbatim>\<open>HasField\<close> is false and the sub-message otherwise. The source tests each field
  on its own, so the record does not assume that only one of them is present.
\<close>

record 'm Config =
  device :: "'m option"
  position :: "'m option"
  power_config :: "'m option"    \<comment> \<open>field \<^verbatim>\<open>power\<close>\<close>
  network :: "'m option"
  display :: "'m option"
  lora :: "'m option"
  bluetooth :: "'m option"
  security :: "'m option"

record 'm ModuleConfig =
  mqtt :: "'m option"
  serial :: "'m option"
  external_notification :: "'m option"
  store_forward :: "'m option"
  range_test :: "'m option"
  telemetry :: "'m option"
  canned_message :: "'m option"
  audio :: "'m option"
  remote_hardware :: "'m option"
  neighbor_info :: "'m option"
  detection_sensor :: "'m option"
  ambient_lighting :: "'m option"
  paxcounter :: "'m option"

text \<open>
  \<^verbatim>\<open>if config.HasField(f): snapshot.f.CopyFrom(config.f)\<close>, for one field: \<open>upd\<close> is the
  update of that field of the snapshot, and \<^verbatim>\<open>CopyFrom\<close> replaces its whole content.
\<close>

definition copy_if_present :: "'m option \<Rightarrow> (('m \<Rightarrow> 'm) \<Rightarrow> 's \<Rightarrow> 's) \<Rightarrow> 's \<Rightarrow> 's" where
  "copy_if_present field upd snapshot =
     (case field of None \<Rightarrow> snapshot | Some v \<Rightarrow> upd (\<lambda>_. v) snapshot)"

definition process_connected_node_config_snapshot ::
  "'m Config \<Rightarrow> 'm LocalConfig \<Rightarrow> 'm LocalConfig" where
  "process_connected_node_config_snapshot config =
     copy_if_present (security config) lc_security_update
     \<circ> copy_if_present (bluetooth config) lc_bluetooth_update
     \<circ> copy_if_present (lora config) lc_lora_update
     \<circ> copy_if_present (display config) lc_display_update
     \<circ> copy_if_present (network config) lc_network_update
     \<circ> copy_if_present (power_config config) lc_power_update
     \<circ> copy_if_present (position config) lc_position_update
     \<circ> copy_if_present (device config) lc_device_update"

definition process_connected_node_module_config_snapshot ::
  "'m ModuleConfig \<Rightarrow> 'm LocalModuleConfig \<Rightarrow> 'm LocalModuleConfig" where
  "process_connected_node_module_config_snapshot module_config =
     copy_if_present (paxcounter module_config) lm_paxcounter_update
     \<circ> copy_if_present (ambient_lighting module_config) lm_ambient_lighting_update
     \<circ> copy_if_present (detection_sensor module_config) lm_detection_sensor_update
     \<circ> copy_if_present (neighbor_info module_config) lm_neighbor_info_update
     \<circ> copy_if_present (remote_hardware module_config) lm_remote_hardware_update
     \<circ> copy_if_present (audio module_config) lm_audio_update
     \<circ> copy_if_present (canned_message module_config) lm_canned_message_update
     \<circ> copy_if_present (telemetry module_config) lm_telemetry_update
     \<circ> copy_if_present (range_test module_config) lm_range_test_update
     \<circ> copy_if_present (store_forward module_config) lm_store_forward_update
     \<circ> copy_if_present (external_notification module_config) lm_external_notification_update
     \<circ> copy_if_present (serial module_config) lm_serial_update
     \<circ> copy_if_present (mqtt module_config) lm_mqtt_update"

text \<open>\<^verbatim>\<open>_process_connected_node_config\<close> and its sibling for the module configuration.\<close>

definition process_connected_node_config :: "'m Config \<Rightarrow> 'm MeshInterface \<Rightarrow> 'm MeshInterface" where
  "process_connected_node_config config self =
     self\<lparr>connected_node_local_config :=
            process_connected_node_config_snapshot config (connected_node_local_config self)\<rparr>"

definition process_connected_node_module_config ::
  "'m ModuleConfig \<Rightarrow> 'm MeshInterface \<Rightarrow> 'm MeshInterface" where
  "process_connected_node_module_config module_config self =
     self\<lparr>connected_node_module_config :=
            process_connected_node_module_config_snapshot module_config
              (connected_node_module_config self)\<rparr>"

text \<open>
  The two branches of \<^verbatim>\<open>_process_connected_node_packets\<close> that carry configuration,
  and a sequence of such frames processed in order of arrival.
\<close>

datatype 'm config_frame = ConfigFrame "'m Config" | ModuleConfigFrame "'m ModuleConfig"

fun process_config_frame :: "'m MeshInterface \<Rightarrow> 'm config_frame \<Rightarrow> 'm MeshInterface" where
  "process_config_frame self (ConfigFrame config) = process_connected_node_config config self"
| "process_config_frame self (ModuleConfigFrame module_config) =
     process_connected_node_module_config module_config self"

definition process_config_frames ::
  "'m MeshInterface \<Rightarrow> 'm config_frame list \<Rightarrow> 'm MeshInterface" where
  "process_config_frames self frames = foldl process_config_frame self frames"

text \<open>
  The sub-fields of the two snapshots by name, to speak about all of them at once: the
  value a snapshot holds for a sub-field, and the value a frame carries for it, if any.
\<close>

datatype sub_field =
    Device | Position | Power | Network | Display | Lora | Bluetooth | Security
  | Mqtt | Serial | ExternalNotification | StoreForward | RangeTest | Telemetry
  | CannedMessage | Audio | RemoteHardware | NeighborInfo | DetectionSensor
  | AmbientLighting | Paxcounter

fun snapshot_value :: "sub_field \<Rightarrow> 'm MeshInterface \<Rightarrow> 'm" where
  "snapshot_value Device self = lc_device (connected_node_local_config self)"
| "snapshot_value Position self = lc_position (connected_node_local_config self)"
| "snapshot_value Power self = lc_power (connected_node_local_config self)"
| "snapshot_value Network self = lc_network (connected_node_local_config self)"
| "snapshot_value Display self = lc_display (connected_node_local_config self)"
| "snapshot_value Lora self = lc_lora (connected_node_local_config self)"
| "snapshot_value Bluetooth self = lc_bluetooth (connected_node_local_config self)"
| "snapshot_value Security self = lc_security (connected_node_local_config self)"
| "snapshot_value Mqtt self = lm_mqtt (connected_node_module_config self)"
| "snapshot_value Serial self = lm_serial (connected_node_module_config self)"
| "snapshot_value ExternalNotification self =
     lm_external_notification (connected_node_module_config self)"
| "snapshot_value StoreForward self = lm_store_forward (connected_node_module_config self)"
| "snapshot_value RangeTest self = lm_range_test (connected_node_module_config self)"
| "snapshot_value Telemetry self = lm_telemetry (connected_node_module_config self)"
| "snapshot_value CannedMessage self = lm_canned_message (connected_node_module_config self)"
| "snapshot_value Audio self = lm_audio (connected_node_module_config self)"
| "snapshot_value RemoteHardware self = lm_remote_hardware (connected_node_module_config self)"
| "snapshot_value NeighborInfo self = lm_neighbor_info (connected_node_module_config self)"
| "snapshot_value DetectionSensor self =
     lm_detection_sensor (connected_node_module_config self)"
| "snapshot_value AmbientLighting self =
     lm_ambient_lighting (connected_node_module_config self)"
| "snapshot_value Paxcounter self = lm_paxcounter (connected_node_module_config self)"

fun config_value :: "sub_field \<Rightarrow> 'm Config \<Rightarrow> 'm option" where
  "config_value Device c = device c"
| "config_value Position c = position c"
| "config_value Power c = power_config c"
| "config_value Network c = network c"
| "config_value Display c = display c"
| "config_value Lora c = lora c"
| "config_value Bluetooth c = bluetooth c"
| "config_value Security c = security c"
| "config_value _ c = None"

fun module_config_value :: "sub_field \<Rightarrow> 'm ModuleConfig \<Rightarrow> 'm option" where
  "module_config_value Mqtt c = mqtt c"
| "module_config_value Serial c = serial c"
| "module_config_value ExternalNotification c = external_notification c"
| "module_config_value StoreForward c = store_forward c"
| "module_config_value RangeTest c = range_test c"
| "module_config_value Telemetry c = telemetry c"
| "module_config_value CannedMessage c = canned_message c"
| "module_config_value Audio c = audio c"
| "module_config_value RemoteHardware c = remote_hardware c"
| "module_config_value NeighborInfo c = neighbor_info c"
| "module_config_value DetectionSensor c = detection_sensor c"
| "module_config_value AmbientLighting c = ambient_lighting c"
| "module_config_value Paxcounter c = paxcounter c"
| "module_config_value _ c = None"

fun frame_value :: "sub_field \<Rightarrow> 'm config_frame \<Rightarrow> 'm option" where
  "frame_value f (ConfigFrame c) = config_value f c"
| "frame_value f (ModuleConfigFrame c) = module_config_value f c"

text \<open>The last value that a sequence of frames carries for a sub-field, if any does.\<close>

fun last_seen :: "sub_field \<Rightarrow> 'm config_frame list \<Rightarrow> 'm option" where
  "last_seen f [] = None"
| "last_seen f (frame # frames) =
     (case last_seen f frames of
        Some v \<Rightarrow> Some v
      | None \<Rightarrow> frame_value f frame)"

definition no_config :: "nat Config" where
  "no_config = \<lparr>device = None, position = None, power_config = None, network = None,
     display = None, lora = None, bluetooth = None, security = None\<rparr>"

definition no_module_config :: "nat ModuleConfig" where
  "no_module_config = \<lparr>mqtt = None, serial = None, external_notification = None,
     store_forward = None, range_test = None, telemetry = None, canned_message = None,
     audio = None, remote_hardware = None, neighbor_info = None, detection_sensor = None,
     ambient_lighting = None, paxcounter = None\<rparr>"

subsection \<open>Stopping the session\<close>

text \<open>
  The objects of the event loop that the session refers to. A task is still running or
  is done; for a running task the flag tells whether its coroutine ends once it is
  cancelled (it may catch the cancellation and go on instead, and then awaiting it does
  not return). A stream listener is closed or not, and the connection records the calls
  made on it.
\<close>

datatype task_state = Running bool | Finished | TaskCancelled

datatype connection_call = SendDisconnect | Disconnect

record runtime =
  tasks :: "nat \<Rightarrow> task_state"
  closed_listeners :: "nat set"
  connection_calls :: "connection_call list"

definition is_done :: "task_state \<Rightarrow> bool" where
  "is_done s = (case s of Running _ \<Rightarrow> False | _ \<Rightarrow> True)"

definition close_packet_streams ::
  "'m MeshInterface \<Rightarrow> runtime \<Rightarrow> 'm MeshInterface \<times> runtime" where
  "close_packet_streams self rt =
     (if packet_stream_listeners self = [] then (self, rt)
      else (self\<lparr>packet_stream_listeners := []\<rparr>,
            rt\<lparr>closed_listeners :=
                 closed_listeners rt \<union> set (packet_stream_listeners self)\<rparr>))"

text \<open>
  \<^verbatim>\<open>_cancel_task\<close>, on the state of the task: \<^verbatim>\<open>t.cancel()\<close> and \<^verbatim>\<open>await t\<close> with
  the cancellation suppressed. \<open>None\<close> when the wait never ends.
\<close>

definition cancel_task :: "task_state \<Rightarrow> task_state option" where
  "cancel_task s =
     (case s of
        Running ends \<Rightarrow> if ends then Some TaskCancelled else None
      | Finished \<Rightarrow> Some Finished
      | TaskCancelled \<Rightarrow> Some TaskCancelled)"

text \<open>
  The cancellation of a set of tasks, each by its own \<^verbatim>\<open>_cancel_task\<close>: every task of
  the set is asked to cancel, and those that end on it are cancelled.
\<close>

definition cancel_requested :: "nat set \<Rightarrow> runtime \<Rightarrow> runtime" where
  "cancel_requested ts rt =
     rt\<lparr>tasks :=
          (\<lambda>t. if t \<in> ts
               then (case cancel_task (tasks rt t) of Some s \<Rightarrow> s | None \<Rightarrow> tasks rt t)
               else tasks rt t)\<rparr>"

text \<open>
  \<^verbatim>\<open>asyncio.wait\<close> over those cancellations returns when all of them have returned:
  \<open>None\<close> when one never does. A background task that is done has been discarded from
  \<^verbatim>\<open>_background_tasks\<close> by its done-callback.
\<close>

definition wait_cancelled :: "nat set \<Rightarrow> runtime \<Rightarrow> runtime option" where
  "wait_cancelled ts rt =
     (if \<exists>t \<in> ts. cancel_task (tasks rt t) = None then None
      else Some (cancel_requested ts rt))"

definition discard_done :: "'m MeshInterface \<Rightarrow> runtime \<Rightarrow> 'm MeshInterface" where
  "discard_done self rt =
     self\<lparr>background_tasks := {t \<in> background_tasks self. \<not> is_done (tasks rt t)}\<rparr>"

text \<open>
  \<open>caller\<close> is the task from which \<^verbatim>\<open>stop\<close> is awaited, when the session tracks it
  (as it does the task \<open>reconnect\<close> that \<^verbatim>\<open>_process_connected_node_packets\<close> starts on
  a \<open>rebooted\<close> frame), and \<open>None\<close> otherwise. When the caller is among the tasks
  cancelled, its own cancellation is raised at the \<^verbatim>\<open>asyncio.wait\<close> it is waiting in;
  the cancellations started go on without it. The first component of a result is what
  is raised, if anything.
\<close>

definition cancels_caller :: "nat option \<Rightarrow> nat set \<Rightarrow> bool" where
  "cancels_caller caller ts = (\<exists>t \<in> ts. caller = Some t)"

definition cancel_processing_tasks ::
  "nat option \<Rightarrow> 'm MeshInterface \<Rightarrow> runtime \<Rightarrow>
   (py_error option \<times> 'm MeshInterface \<times> runtime) option" where
  "cancel_processing_tasks caller self rt =
     (if processing_tasks self = {} then Some (None, self, rt)
      else if cancels_caller caller (processing_tasks self \<union> background_tasks self)
      then (let rt = cancel_requested (processing_tasks self \<union> background_tasks self) rt
            in Some (Some CancelledError, discard_done self rt, rt))
      else case wait_cancelled (processing_tasks self \<union> background_tasks self) rt of
        None \<Rightarrow> None
      | Some rt \<Rightarrow> Some (None, (discard_done self rt)\<lparr>processing_tasks := {}\<rparr>, rt))"

definition cancel_background_tasks ::
  "nat option \<Rightarrow> 'm MeshInterface \<Rightarrow> runtime \<Rightarrow>
   (py_error option \<times> 'm MeshInterface \<times> runtime) option" where
  "cancel_background_tasks caller self rt =
     (if background_tasks self = {} then Some (None, self, rt)
      else if cancels_caller caller (background_tasks self)
      then (let rt = cancel_requested (background_tasks self) rt
            in Some (Some CancelledError, discard_done self rt, rt))
      else case wait_cancelled (background_tasks self) rt of
        None \<Rightarrow> None
      | Some rt \<Rightarrow> Some (None, discard_done self rt, rt))"

text \<open>
  The end of \<^verbatim>\<open>stop\<close> and \<^verbatim>\<open>stop\<close> itself, given how \<^verbatim>\<open>send_disconnect\<close> and
  \<^verbatim>\<open>disconnect\<close> of the connection end (\<open>None\<close>: normally). An \<^verbatim>\<open>Exception\<close> of
  \<^verbatim>\<open>send_disconnect\<close> is suppressed; a cancellation is not one. \<open>stop\<close> returns
  what it raises, if anything, with the session and the runtime it leaves; the whole
  result is \<open>None\<close> when it never returns. No activity other than the cancellations is
  scheduled in between.
\<close>

definition disconnect_connection ::
  "'m MeshInterface \<Rightarrow> runtime \<Rightarrow> py_error option \<Rightarrow> py_error option \<Rightarrow>
   py_error option \<times> 'm MeshInterface \<times> runtime" where
  "disconnect_connection self rt send_disconnect disconnect =
     (let rt = rt\<lparr>connection_calls := connection_calls rt @ [SendDisconnect]\<rparr>
      in if send_disconnect = Some CancelledError then (Some CancelledError, self, rt)
         else (disconnect, self, rt\<lparr>connection_calls := connection_calls rt @ [Disconnect]\<rparr>))"

definition stop ::
  "nat option \<Rightarrow> 'm MeshInterface \<Rightarrow> runtime \<Rightarrow> py_error option \<Rightarrow> py_error option \<Rightarrow>
   (py_error option \<times> 'm MeshInterface \<times> runtime) option" where
  "stop caller self rt send_disconnect disconnect =
     (if \<not> is_running self then Some (None, self, rt)
      else
        (case close_packet_streams
                (self\<lparr>is_running := False, connected_node_ready := False\<rparr>) rt of
           (self, rt) \<Rightarrow>
             (case cancel_processing_tasks caller self rt of
                None \<Rightarrow> None
              | Some (Some e, self, rt) \<Rightarrow> Some (Some e, self, rt)
              | Some (None, self, rt) \<Rightarrow>
                  (case cancel_background_tasks caller self rt of
                     None \<Rightarrow> None
                   | Some (Some e, self, rt) \<Rightarrow> Some (Some e, self, rt)
                   | Some (None, self, rt) \<Rightarrow>
                       Some (disconnect_connection self rt send_disconnect disconnect)))))"

definition example_runtime :: runtime where
  "example_runtime =
     \<lparr>tasks = (\<lambda>t. if t \<le> 2 then Running True else Finished),
      closed_listeners = {},
      connection_calls = []\<rparr>"

subsection \<open>Supervised activities\<close>

text \<open>
  How an \<^verbatim>\<open>await\<close> ends: it returns a value, or raises \<^verbatim>\<open>TimeoutError\<close>, a
  cancellation, or any other exception.
\<close>

datatype 'a awaited = Completed 'a | TimedOut | WasCancelled | Failed

text \<open>What an activity does that others can observe, in order.\<close>

datatype action =
    RunBody
  | Sleep real
  | CallReconnect bool real        \<comment> \<open>\<^verbatim>\<open>reconnect(force=\<dots>)\<close> under \<^verbatim>\<open>wait_for\<close> with that timeout\<close>
  | CallRequestConfig bool real    \<comment> \<open>\<^verbatim>\<open>request_config(minimal=\<dots>)\<close>, likewise\<close>
  | SendHeartbeat bool             \<comment> \<open>by \<^verbatim>\<open>request_connection_status\<close> when ready, else plainly\<close>

text \<open>
  How an activity ends. The loops below may run for ever; they are run against a finite
  script of what their surroundings do in each pass, and \<open>StillRunning\<close> is the state of
  a loop that has used the script up.
\<close>

datatype ending = Returns | Raises py_error | StillRunning

definition after :: "action list \<Rightarrow> ending \<times> 's \<times> action list \<Rightarrow> ending \<times> 's \<times> action list" where
  "after acts rest = (case rest of (e, s, as) \<Rightarrow> (e, s, acts @ as))"

text \<open>
  One pass of the loop of \<^verbatim>\<open>process_while_running\<close>: the running flag at the test of
  the loop, how the wrapped body ends, and how the cool-down sleep ends if it is reached.
\<close>

record pass =
  pass_running :: bool
  body :: "unit awaited"
  cool_down :: "unit awaited"

fun process_while_running :: "pass list \<Rightarrow> ending \<times> unit \<times> action list" where
  "process_while_running [] = (StillRunning, (), [])"
| "process_while_running (p # ps) =
     (if \<not> pass_running p then (Returns, (), [])
      else case body p of
        Completed _ \<Rightarrow> after [RunBody] (process_while_running ps)
      | WasCancelled \<Rightarrow> (Raises CancelledError, (), [RunBody])
      | _ \<Rightarrow>
          (case cool_down p of
             Completed _ \<Rightarrow> after [RunBody, Sleep 5] (process_while_running ps)
           | WasCancelled \<Rightarrow> (Returns, (), [RunBody, Sleep 5])
           | _ \<Rightarrow> (Raises (OtherError ''sleep''), (), [RunBody, Sleep 5])))"

subsection \<open>The reconnection loop\<close>

text \<open>
  One cycle of \<^verbatim>\<open>_reconnect_while_running\<close>: the running flag at the test of the loop,
  how \<^verbatim>\<open>reconnect\<close> ends (a cancellation while waiting for the lock counts here), how
  \<^verbatim>\<open>request_config\<close> ends, the number that the random generator gives when it is
  asked, and how the back-off sleep ends; the last three matter only when they are
  reached.
\<close>

record cycle =
  cycle_running :: bool
  reconnect :: "bool awaited"
  request_config :: "unit awaited"
  generator :: nat
  backoff_sleep :: "unit awaited"

text \<open>
  \<^verbatim>\<open>random.randint(a, b)\<close> of the Python library: \<open>a\<close> plus a number below
  \<open>b - a + 1\<close> taken from the generator, here the generator's number reduced to that
  range.
\<close>

definition randint :: "int \<Rightarrow> int \<Rightarrow> nat \<Rightarrow> int" where
  "randint a b u = a + int (u mod nat (b - a + 1))"

text \<open>
  The handler of any other exception: sleep the delay drawn, then go round the loop
  again. A cancellation of the sleep is raised inside the handler and leaves the function.
\<close>

definition back_off ::
  "cycle \<Rightarrow> action list \<Rightarrow> 's \<Rightarrow> ending \<times> 's \<times> action list \<Rightarrow> ending \<times> 's \<times> action list" where
  "back_off c acts self continue =
     (let reconnect_delay = real_of_int (randint 5 30 (generator c))
      in case backoff_sleep c of
           Completed _ \<Rightarrow> after (acts @ [Sleep reconnect_delay]) continue
         | WasCancelled \<Rightarrow> (Raises CancelledError, self, acts @ [Sleep reconnect_delay])
         | _ \<Rightarrow> (Raises (OtherError ''sleep''), self, acts @ [Sleep reconnect_delay]))"

fun reconnect_while_running ::
  "'m MeshInterface \<Rightarrow> bool \<Rightarrow> cycle list \<Rightarrow> ending \<times> 'm MeshInterface \<times> action list" where
  "reconnect_while_running self force_reconnect [] = (StillRunning, self, [])"
| "reconnect_while_running self force_reconnect (c # cs) =
     (if \<not> cycle_running c then (Returns, self, [])
      else case reconnect c of
        TimedOut \<Rightarrow>
          after [CallReconnect force_reconnect 30]
            (reconnect_while_running self force_reconnect cs)
      | WasCancelled \<Rightarrow> (Returns, self, [CallReconnect force_reconnect 30])
      | Failed \<Rightarrow>
          back_off c [CallReconnect force_reconnect 30] self
            (reconnect_while_running self force_reconnect cs)
      | Completed did_reconnect \<Rightarrow>
          if did_reconnect then
            (case request_config c of
               Completed _ \<Rightarrow>
                 (Returns, self\<lparr>connected_node_ready := True\<rparr>,
                  [CallReconnect force_reconnect 30, CallRequestConfig (no_nodes self) 60])
             | TimedOut \<Rightarrow>
                 after [CallReconnect force_reconnect 30, CallRequestConfig (no_nodes self) 60]
                   (reconnect_while_running self True cs)
             | WasCancelled \<Rightarrow>
                 (Returns, self,
                  [CallReconnect force_reconnect 30, CallRequestConfig (no_nodes self) 60])
             | Failed \<Rightarrow>
                 back_off c
                   [CallReconnect force_reconnect 30, CallRequestConfig (no_nodes self) 60] self
                   (reconnect_while_running self force_reconnect cs))
          else (Returns, self, [CallReconnect force_reconnect 30]))"

definition actions :: "ending \<times> 's \<times> action list \<Rightarrow> action list" where
  "actions r = snd (snd r)"

definition is_sleep :: "action \<Rightarrow> bool" where
  "is_sleep a = (case a of Sleep _ \<Rightarrow> True | _ \<Rightarrow> False)"

subsection \<open>The heartbeat loop\<close>

text \<open>
  One round of the \<^verbatim>\<open>while True\<close> of \<^verbatim>\<open>_heartbeat_loop\<close>: how the sleep of the
  heartbeat interval ends, how the heartbeat ends, and what the reconnection loop meets
  if the heartbeat fails. A cancellation is no \<^verbatim>\<open>Exception\<close>, so the handler of the
  heartbeat lets it pass; whatever the reconnection loop raises passes too, and when it
  returns the loop goes on.
\<close>

record beat =
  interval_sleep :: "unit awaited"
  heartbeat :: "unit awaited"
  reconnecting :: "cycle list"

fun heartbeat_loop ::
  "'m MeshInterface \<Rightarrow> beat list \<Rightarrow> ending \<times> 'm MeshInterface \<times> action list" where
  "heartbeat_loop self [] = (StillRunning, self, [])"
| "heartbeat_loop self (b # bs) =
     (case interval_sleep b of
        Completed _ \<Rightarrow>
          (case heartbeat b of
             Completed _ \<Rightarrow>
               after [Sleep (heartbeat_interval_s self), SendHeartbeat (connected_node_ready self)]
                 (heartbeat_loop self bs)
           | WasCancelled \<Rightarrow>
               (Raises CancelledError, self,
                [Sleep (heartbeat_interval_s self), SendHeartbeat (connected_node_ready self)])
           | _ \<Rightarrow>
               (case reconnect_while_running self True (reconnecting b) of
                  (Returns, self', acts) \<Rightarrow>
                    after ([Sleep (heartbeat_interval_s self),
                            SendHeartbeat (connected_node_ready self)] @ acts)
                      (heartbeat_loop self' bs)
                | (e, self', acts) \<Rightarrow>
                    (e, self',
                     [Sleep (heartbeat_interval_s self),
                      SendHeartbeat (connected_node_ready self)] @ acts)))
      | WasCancelled \<Rightarrow> (Raises CancelledError, self, [Sleep (heartbeat_interval_s self)])
      | _ \<Rightarrow> (Raises (OtherError ''sleep''), self, [Sleep (heartbeat_interval_s self)]))"

text \<open>
  The heartbeat task of the example at the moment a heartbeat has failed and the
  reconnection loop is waiting for \<^verbatim>\<open>reconnect\<close>: what the task does when it is
  cancelled there and, were it not to end, meets one more quiet round. The runtime in
  which \<open>stop\<close> finds that task (task 0) takes from this whether the task ends when
  cancelled.
\<close>

definition cancelled_while_reconnecting :: "beat list" where
  "cancelled_while_reconnecting =
     [\<lparr>interval_sleep = Completed (), heartbeat = Failed,
       reconnecting = [\<lparr>cycle_running = True, reconnect = WasCancelled,
                        request_config = Completed (), generator = 0,
                        backoff_sleep = Completed ()\<rparr>]\<rparr>,
      \<lparr>interval_sleep = Completed (), heartbeat = Completed (), reconnecting = []\<rparr>]"

definition ends_when_cancelled :: "ending \<times> 's \<times> action list \<Rightarrow> bool" where
  "ends_when_cancelled r = (case fst r of StillRunning \<Rightarrow> False | _ \<Rightarrow> True)"

definition example_runtime_reconnecting :: runtime where
  "example_runtime_reconnecting =
     \<lparr>tasks = (\<lambda>t. if t = 0
                   then Running (ends_when_cancelled
                          (heartbeat_loop (example_session\<lparr>is_running := False\<rparr>)
                             cancelled_while_reconnecting))
                   else if t \<le> 2 then Running True else Finished),
      closed_listeners = {},
      connection_calls = []\<rparr>"

subsection \<open>The request/response correlator\<close>

text \<open>
  \<^verbatim>\<open>actual_timeout\<close> of \<^verbatim>\<open>_send_message_await_response\<close>; the default
  \<^verbatim>\<open>UNDEFINED\<close> of the \<^verbatim>\<open>timeout\<close> argument is \<open>None\<close>.
\<close>

definition actual_timeout :: "'m MeshInterface \<Rightarrow> bool \<Rightarrow> real option \<Rightarrow> real" where
  "actual_timeout self want_response timeout =
     (case timeout of
        Some t \<Rightarrow> t
      | None \<Rightarrow> if want_response then response_timeout self else ack_timeout self)"

text \<open>
  What happens to one request after it is submitted at time 0: when the
  acknowledgement callback runs, if it does, and with which \<^verbatim>\<open>error_reason\<close> (0 is
  \<^verbatim>\<open>NONE\<close>); and when the task of \<^verbatim>\<open>send_mesh_packet\<close> completes, if it does, and
  with which exception or result.
\<close>

record 'p exchange =
  ack_at :: "(real \<times> nat) option"
  send_done_at :: "(real \<times> (py_error + 'p)) option"

datatype waited_task = AbortOnError | SendPacket

text \<open>The error queue receives an item, and the task that waits for it completes, on an
  acknowledgement that carries an error.\<close>

definition abort_done_at :: "'p exchange \<Rightarrow> real option" where
  "abort_done_at ex =
     (case ack_at ex of
        Some (t, error_reason) \<Rightarrow> if error_reason \<noteq> 0 then Some t else None
      | None \<Rightarrow> None)"

definition completed_by :: "real option \<Rightarrow> real \<Rightarrow> bool" where
  "completed_by done_at t = (case done_at of Some x \<Rightarrow> x \<le> t | None \<Rightarrow> False)"

text \<open>
  \<^verbatim>\<open>asyncio.wait\<close> of the two tasks with a timeout and \<^verbatim>\<open>FIRST_COMPLETED\<close>: it
  returns at the first completion that comes no later than the timeout, with the tasks
  done by then, and otherwise at the timeout with no task done.
\<close>

definition wait_first_completed ::
  "real \<Rightarrow> real option \<Rightarrow> real option \<Rightarrow> waited_task set \<times> real" where
  "wait_first_completed timeout abort_at send_at =
     (let wake = (case (abort_at, send_at) of
                    (None, None) \<Rightarrow> timeout
                  | (Some a, None) \<Rightarrow> min a timeout
                  | (None, Some s) \<Rightarrow> min s timeout
                  | (Some a, Some s) \<Rightarrow> min (min a s) timeout)
      in ((if completed_by abort_at wake then {AbortOnError} else {})
          \<union> (if completed_by send_at wake then {SendPacket} else {}), wake))"

text \<open>
  \<^verbatim>\<open>_send_message_await_response\<close>: what it raises or returns, and the time at which
  it does.
\<close>

definition send_message_await_response ::
  "'m MeshInterface \<Rightarrow> 'p exchange \<Rightarrow> bool \<Rightarrow> real option \<Rightarrow> (py_error + 'p) \<times> real" where
  "send_message_await_response self ex want_response timeout =
     (let deadline = actual_timeout self want_response timeout;
          (done, now) = wait_first_completed deadline
                          (abort_done_at ex) (map_option fst (send_done_at ex));
          ack_received = completed_by (map_option fst (ack_at ex)) now
      in if done = {AbortOnError}
         then (Inl (MeshRoutingError (case ack_at ex of Some (_, r) \<Rightarrow> r | None \<Rightarrow> 0)), now)
         else if done = {SendPacket}
         then (case send_done_at ex of Some (_, r) \<Rightarrow> (r, now) | None \<Rightarrow> (Inl TypeError, now))
         else if \<not> ack_received
         then (Inl (MeshInterfaceRequestError (NoAcknowledgement deadline)), now)
         else (Inl (MeshInterfaceRequestError (NoResponse deadline)), now))"

section \<open>Properties\<close>

subsection \<open>Hexadecimal formatting\<close>

lemma digit_cases: "d < 16 \<Longrightarrow> d \<in> {0,1,2,3,4,5,6,7,8,9,10,11,12,13,14,15::nat}"
  by (simp, arith)

lemma hex_digit_lower: "d < 16 \<Longrightarrow> is_lower_hex (hex_digit d)"
  using digit_cases [of d] by (auto simp: is_lower_hex_def hex_digit_def)

lemma hex_digit_value_digit: "d < 16 \<Longrightarrow> hex_digit_value (hex_digit d) = d"
  using digit_cases [of d] by (auto simp: hex_digit_value_def hex_digit_def)

lemma hex_length: "n < 16 ^ k \<Longrightarrow> 0 < k \<Longrightarrow> length (hex n) \<le> k"
proof (induction n arbitrary: k rule: hex.induct)
  case (1 n)
  show ?case
  proof (cases "n < 16")
    case True
    then show ?thesis using 1(3) by (simp add: hex.simps [of n])
  next
    case False
    then obtain j where k: "k = Suc j" using 1(3) by (cases k) auto
    have "0 < j" using False 1(2) k by (cases j) auto
    moreover have "n div 16 < 16 ^ j"
      using 1(2) k by (simp add: less_mult_imp_div_less mult.commute)
    ultimately have "length (hex (n div 16)) \<le> j" using 1(1) [OF False] by blast
    then show ?thesis using False k by (simp add: hex.simps [of n])
  qed
qed

lemma hex_all_lower: "c \<in> set (hex n) \<Longrightarrow> is_lower_hex c"
proof (induction n rule: hex.induct)
  case (1 n)
  show ?case
  proof (cases "n < 16")
    case True
    then show ?thesis using 1(2) by (simp add: hex.simps [of n] hex_digit_lower)
  next
    case False
    then show ?thesis using 1 by (auto simp add: hex.simps [of n] hex_digit_lower)
  qed
qed

lemma hex_value_snoc: "hex_value (s @ [c]) = 16 * hex_value s + hex_digit_value c"
  by (simp add: hex_value_def)

lemma hex_value_hex: "hex_value (hex n) = n"
proof (induction n rule: hex.induct)
  case (1 n)
  show ?case
  proof (cases "n < 16")
    case True
    then show ?thesis by (simp add: hex.simps [of n] hex_value_def hex_digit_value_digit)
  next
    case False
    then show ?thesis using 1 by (simp add: hex.simps [of n] hex_value_snoc hex_digit_value_digit)
  qed
qed

lemma hex_value_zero_pad: "hex_value (zero_pad w s) = hex_value s"
proof -
  have "foldl (\<lambda>acc c. 16 * acc + hex_digit_value c) 0 (replicate k CHR ''0'') = 0" for k
    by (induction k) (simp_all add: hex_digit_value_def)
  then show ?thesis by (simp add: hex_value_def zero_pad_def)
qed

lemma format_08x_uint32:
  assumes "0 \<le> n" and "n < 2 ^ 32"
  shows "length (format_08x n) = 8"
    and "\<forall>c \<in> set (format_08x n). is_lower_hex c"
    and "int (hex_value (format_08x n)) = n"
proof -
  have "nat n < 16 ^ 8" using assms by simp
  then have len: "length (hex (nat n)) \<le> 8" by (rule hex_length) simp
  show "length (format_08x n) = 8"
    using assms len by (simp add: format_08x_def zero_pad_def)
  have "is_lower_hex CHR ''0''" by (simp add: is_lower_hex_def)
  then show "\<forall>c \<in> set (format_08x n). is_lower_hex c"
    using assms by (auto simp: format_08x_def zero_pad_def hex_all_lower)
  show "int (hex_value (format_08x n)) = n"
    using assms by (simp add: format_08x_def hex_value_zero_pad hex_value_hex)
qed

subsection \<open>Stub identity of a node\<close>

text \<open>
  C7. A node record created as a stub has a deterministic identity: its user id is
  \<open>!\<close> followed by the node number in the format \<^verbatim>\<open>08x\<close>, its short name is the last
  four characters of that id, and its long name is \<open>Meshtastic\<close> followed by the same four
  characters. For a node number of the protocol (an unsigned 32-bit number) the format
  gives exactly eight lowercase hexadecimal digits that read back as the number, so the
  four characters are its four least significant hex digits. The entry that
  \<open>get_or_create_node\<close> inserts for an unknown node carries the same three strings.
\<close>

theorem stub_node_identity:
  "user_id (stub_node n) = CHR ''!'' # format_08x n
   \<and> short_name (stub_node n) = last4 (user_id (stub_node n))
   \<and> long_name (stub_node n) = ''Meshtastic '' @ last4 (user_id (stub_node n))
   \<and> id_num (stub_node n) = n
   \<and> (0 \<le> n \<and> n < 2 ^ 32 \<longrightarrow>
        length (format_08x n) = 8
        \<and> (\<forall>c \<in> set (format_08x n). is_lower_hex c)
        \<and> int (hex_value (format_08x n)) = n
        \<and> short_name (stub_node n) = drop 4 (format_08x n))
   \<and> (n \<noteq> BROADCAST_NUM \<and> db n = None \<longrightarrow>
        (\<exists>e. get_or_create_node db n = Inr (e, db(n \<mapsto> e))
           \<and> num e = n
           \<and> user_ident (user e) = user_id (stub_node n)
           \<and> shortName (user e) = short_name (stub_node n)
           \<and> longName (user e) = long_name (stub_node n)))"
proof -
  have a: "user_id (stub_node n) = CHR ''!'' # format_08x n"
    and b: "short_name (stub_node n) = last4 (user_id (stub_node n))"
    and c: "long_name (stub_node n) = ''Meshtastic '' @ last4 (user_id (stub_node n))"
    and d: "id_num (stub_node n) = n"
    by (simp_all add: stub_node_def Let_def)
  have e: "length (format_08x n) = 8
        \<and> (\<forall>c \<in> set (format_08x n). is_lower_hex c)
        \<and> int (hex_value (format_08x n)) = n
        \<and> short_name (stub_node n) = drop 4 (format_08x n)"
    if "0 \<le> n \<and> n < 2 ^ 32"
  proof -
    have len: "length (format_08x n) = 8" using that format_08x_uint32(1) by blast
    have "short_name (stub_node n) = drop 4 (format_08x n)"
      by (simp add: a b last4_def len)
    then show ?thesis using that len format_08x_uint32(2,3) by blast
  qed
  have f: "\<exists>e. get_or_create_node db n = Inr (e, db(n \<mapsto> e))
           \<and> num e = n
           \<and> user_ident (user e) = user_id (stub_node n)
           \<and> shortName (user e) = short_name (stub_node n)
           \<and> longName (user e) = long_name (stub_node n)"
    if "n \<noteq> BROADCAST_NUM \<and> db n = None"
    using that by (simp add: get_or_create_node_def stub_node_def Let_def)
  show ?thesis using a b c d e f by blast
qed

theorem stub_node_identity_witness:
  "(0::int) \<le> 0x1234abcd \<and> (0x1234abcd::int) < 2 ^ 32
   \<and> (0x1234abcd::int) \<noteq> BROADCAST_NUM \<and> (Map.empty :: node_database) 0x1234abcd = None
   \<and> user_id (stub_node 0x1234abcd) = ''!1234abcd''
   \<and> short_name (stub_node 0x1234abcd) = ''abcd''
   \<and> long_name (stub_node 0x1234abcd) = ''Meshtastic abcd''
   \<and> length (format_08x 0x1234abcd) = 8
   \<and> list_all is_lower_hex (format_08x 0x1234abcd)
   \<and> hex_value (format_08x 0x1234abcd) = 0x1234abcd
   \<and> (\<exists>e. get_or_create_node Map.empty 0x1234abcd = Inr (e, [0x1234abcd \<mapsto> e])
         \<and> user_ident (user e) = ''!1234abcd'' \<and> shortName (user e) = ''abcd''
         \<and> longName (user e) = ''Meshtastic abcd'')"
proof -
  have fmt: "format_08x 0x1234abcd = ''1234abcd''"
    by (simp add: format_08x_def zero_pad_def hex.simps hex_digit_def)
  have h: "(0::int) \<le> 0x1234abcd \<and> (0x1234abcd::int) < 2 ^ 32" by simp
  have g: "(0x1234abcd::int) \<noteq> BROADCAST_NUM \<and> (Map.empty :: node_database) 0x1234abcd = None"
    by (simp add: BROADCAST_NUM_def)
  note t = stub_node_identity [of "0x1234abcd" Map.empty]
  have u: "user_id (stub_node 0x1234abcd) = ''!1234abcd''" using t by (simp add: fmt)
  have s: "short_name (stub_node 0x1234abcd) = ''abcd''" using t u by (simp add: last4_def)
  have l: "long_name (stub_node 0x1234abcd) = ''Meshtastic abcd''"
    using t u by (simp add: last4_def)
  have v: "hex_value (format_08x 0x1234abcd) = 0x1234abcd" using t h by simp
  have d: "length (format_08x 0x1234abcd) = 8
     \<and> list_all is_lower_hex (format_08x 0x1234abcd)"
    using t h unfolding list_all_iff by blast
  have e: "\<exists>e. get_or_create_node Map.empty 0x1234abcd = Inr (e, [0x1234abcd \<mapsto> e])
         \<and> user_ident (user e) = ''!1234abcd'' \<and> shortName (user e) = ''abcd''
         \<and> longName (user e) = ''Meshtastic abcd''"
    using t g unfolding u s l by blast
  show ?thesis using h g u s l v d e by blast
qed

subsection \<open>Admin channel selection\<close>



lemma first_admin_channel_find:
  "first_admin_channel cs =
     (case find (\<lambda>c. lower (name (settings c)) = ''admin'') cs of
        None \<Rightarrow> 0 | Some c \<Rightarrow> index c)"
  by (induction cs) simp_all

lemma lower_char_eq:
  assumes "of_char x \<in> {97 .. 122::nat}" and u: "of_char u = (of_char x - 32 :: nat)"
  shows "lower_char c = x \<longleftrightarrow> c = x \<or> c = u"
proof -
  let ?k = "of_char c :: nat"
  have kx: "of_char x \<ge> (97::nat)" "of_char x \<le> (122::nat)" using assms by auto
  have cu: "c = u \<longleftrightarrow> ?k + 32 = of_char x"
  proof
    assume "c = u" then show "?k + 32 = of_char x" using u kx by simp
  next
    assume "?k + 32 = of_char x"
    then have "(of_char c :: nat) = of_char u" using u by simp
    then show "c = u" by simp
  qed
  show ?thesis
  proof (cases "65 \<le> ?k \<and> ?k \<le> 90")
    case True
    then have l: "lower_char c = char_of (?k + 32)" by (simp add: lower_char_def Let_def)
    have "c \<noteq> x" using True kx by auto
    have "(char_of (?k + 32) = x) = (?k + 32 = of_char x)"
    proof
      assume "char_of (?k + 32) = x"
      then have "of_char x = (?k + 32) mod 256" by auto
      then show "?k + 32 = of_char x" using True by simp
    next
      assume "?k + 32 = of_char x"
      then show "char_of (?k + 32) = x" by simp
    qed
    then show ?thesis using l \<open>c \<noteq> x\<close> cu by simp
  next
    case False
    then have l: "lower_char c = c" by (auto simp add: lower_char_def Let_def)
    have "c \<noteq> u" using cu False kx by auto
    then show ?thesis using l by auto
  qed
qed


lemma lower_char_admin:
  "lower_char c = CHR ''a'' \<longleftrightarrow> c = CHR ''a'' \<or> c = CHR ''A''"
  "lower_char c = CHR ''d'' \<longleftrightarrow> c = CHR ''d'' \<or> c = CHR ''D''"
  "lower_char c = CHR ''m'' \<longleftrightarrow> c = CHR ''m'' \<or> c = CHR ''M''"
  "lower_char c = CHR ''i'' \<longleftrightarrow> c = CHR ''i'' \<or> c = CHR ''I''"
  "lower_char c = CHR ''n'' \<longleftrightarrow> c = CHR ''n'' \<or> c = CHR ''N''"
  using lower_char_eq [of "CHR ''a''" "CHR ''A''" c] lower_char_eq [of "CHR ''d''" "CHR ''D''" c]
    lower_char_eq [of "CHR ''m''" "CHR ''M''" c] lower_char_eq [of "CHR ''i''" "CHR ''I''" c]
    lower_char_eq [of "CHR ''n''" "CHR ''N''" c]
  by simp_all

lemma lower_admin_iff:
  "lower s = ''admin'' \<longleftrightarrow>
     (\<exists>a d m i n. s = [a, d, m, i, n] \<and> (a = CHR ''a'' \<or> a = CHR ''A'') \<and> (d = CHR ''d'' \<or> d = CHR ''D'')
        \<and> (m = CHR ''m'' \<or> m = CHR ''M'') \<and> (i = CHR ''i'' \<or> i = CHR ''I'') \<and> (n = CHR ''n'' \<or> n = CHR ''N''))"
  (is "?L \<longleftrightarrow> ?R")
proof
  assume ?L
  then obtain a d m i n where s: "s = [a, d, m, i, n]"
    and "lower_char a = CHR ''a''" "lower_char d = CHR ''d''" "lower_char m = CHR ''m''"
      "lower_char i = CHR ''i''" "lower_char n = CHR ''n''"
    unfolding lower_def by (auto simp only: map_eq_Cons_conv list.inject char.inject simp_thms map_is_Nil_conv)
  then show ?R by (simp only: lower_char_admin) blast
next
  assume ?R
  then obtain a d m i n where s: "s = [a, d, m, i, n]"
    and "lower_char a = CHR ''a''" "lower_char d = CHR ''d''" "lower_char m = CHR ''m''"
      "lower_char i = CHR ''i''" "lower_char n = CHR ''n''"
    by (simp only: lower_char_admin) blast
  then show ?L by (simp add: lower_def)
qed

lemma first_admin_channel_split:
  "cs = pre @ c # post \<Longrightarrow> \<forall>p \<in> set pre. lower (name (settings p)) \<noteq> ''admin'' \<Longrightarrow>
   lower (name (settings c)) = ''admin'' \<Longrightarrow> first_admin_channel cs = index c"
  by (induction pre arbitrary: cs) auto

lemma first_admin_channel_none:
  "\<forall>c \<in> set cs. lower (name (settings c)) \<noteq> ''admin'' \<Longrightarrow> first_admin_channel cs = 0"
  by (induction cs) auto

lemma has_pkc_iff: "has_pkc db k \<longleftrightarrow> (\<exists>n. db k = Some n \<and> hasPKC n = Some True)"
  by (auto simp: has_pkc_def split: option.splits)

text \<open>
  C2. When the identity of the connected device is known: for the connected device itself
  the admin channel is 0; for another node it is 8 when the node database records
  \<open>hasPKC\<close> as true for both the connected device and the target; otherwise it is the
  index of the first channel whose name is \<open>admin\<close> up to case (the names that
  \<open>lower_admin_iff\<close> lists), and 0 when there is none. The first case does not look
  at the channels at all.
\<close>

theorem admin_channel_selection:
  assumes "connected_node_info self = Some info"
  shows "(node = my_node_num info \<longrightarrow> get_admin_channel_index self node = Inr 0)
    \<and> (node \<noteq> my_node_num info
         \<and> (\<exists>n. node_database self (my_node_num info) = Some n \<and> hasPKC n = Some True)
         \<and> (\<exists>n. node_database self node = Some n \<and> hasPKC n = Some True)
        \<longrightarrow> get_admin_channel_index self node = Inr 8)
    \<and> (node \<noteq> my_node_num info
         \<and> \<not> ((\<exists>n. node_database self (my_node_num info) = Some n \<and> hasPKC n = Some True)
              \<and> (\<exists>n. node_database self node = Some n \<and> hasPKC n = Some True))
        \<longrightarrow> (\<forall>channels pre c post.
               connected_node_channels self = Some channels \<and> channels = pre @ c # post
               \<and> (\<forall>p \<in> set pre. lower (name (settings p)) \<noteq> ''admin'')
               \<and> lower (name (settings c)) = ''admin''
               \<longrightarrow> get_admin_channel_index self node = Inr (index c))
          \<and> ((\<forall>channels. connected_node_channels self = Some channels
                 \<longrightarrow> (\<forall>c \<in> set channels. lower (name (settings c)) \<noteq> ''admin''))
               \<longrightarrow> get_admin_channel_index self node = Inr 0))"
proof -
  define me where "me = my_node_num info"
  define both where "both \<longleftrightarrow>
     (\<exists>n. node_database self me = Some n \<and> hasPKC n = Some True)
     \<and> (\<exists>n. node_database self node = Some n \<and> hasPKC n = Some True)"
  define chs where
    "chs = (case connected_node_channels self of None \<Rightarrow> [] | Some cs \<Rightarrow> cs)"
  have "(has_pkc (node_database self) me \<and> has_pkc (node_database self) node) = both"
    unfolding both_def by (simp only: has_pkc_iff)
  then have sel: "get_admin_channel_index self node =
      (if node = me then Inr 0
       else if both then Inr PKC_CHANNEL_INDEX else Inr (first_admin_channel chs))"
    using assms by (simp add: get_admin_channel_index_def me_def chs_def)
  have 1: "get_admin_channel_index self node = Inr 0" if "node = me"
    using that sel by simp
  have 2: "get_admin_channel_index self node = Inr 8" if "node \<noteq> me" and both
    using that sel by (simp add: PKC_CHANNEL_INDEX_def)
  have 3: "get_admin_channel_index self node = Inr (index c)"
    if "node \<noteq> me" and "\<not> both"
      and "connected_node_channels self = Some channels \<and> channels = pre @ c # post
               \<and> (\<forall>p \<in> set pre. lower (name (settings p)) \<noteq> ''admin'')
               \<and> lower (name (settings c)) = ''admin''"
    for channels pre c post
  proof -
    have "chs = channels" using that(3) by (simp add: chs_def)
    then have "first_admin_channel chs = index c"
      using that(3) first_admin_channel_split by blast
    then show ?thesis using that(1,2) sel by simp
  qed
  have 4: "get_admin_channel_index self node = Inr 0"
    if "node \<noteq> me" and "\<not> both"
      and "\<forall>channels. connected_node_channels self = Some channels
                 \<longrightarrow> (\<forall>c \<in> set channels. lower (name (settings c)) \<noteq> ''admin'')"
  proof -
    have "first_admin_channel chs = 0"
      using that(3) unfolding chs_def
      by (cases "connected_node_channels self") (simp_all add: first_admin_channel_none)
    then show ?thesis using that(1,2) sel by simp
  qed
  show ?thesis using 1 2 3 4 unfolding me_def both_def by blast
qed

lemma example_info: "connected_node_info example_session = Some \<lparr>my_node_num = 1\<rparr>"
  by (simp add: example_session_def)

theorem admin_channel_selection_witness:
  "connected_node_info example_session = Some \<lparr>my_node_num = 1\<rparr>
   \<and> get_admin_channel_index example_session 1 = Inr 0
   \<and> get_admin_channel_index example_session 2 = Inr 8
   \<and> get_admin_channel_index example_session 3 = Inr 1
   \<and> get_admin_channel_index
        (example_session\<lparr>connected_node_channels := Some (take 1 example_channels)\<rparr>) 3 = Inr 0"
proof -
  note t = admin_channel_selection [OF example_info]
  have db: "node_database example_session 1 = Some (example_node 1 (Some True))"
    "node_database example_session 2 = Some (example_node 2 (Some True))"
    "node_database example_session 3 = Some (example_node 3 None)"
    by (simp_all add: example_session_def)
  have pk: "hasPKC (example_node k p) = p" for k p by (simp add: example_node_def)
  have c1: "get_admin_channel_index example_session 1 = Inr 0" using t [of 1] by simp
  have c2: "get_admin_channel_index example_session 2 = Inr 8"
    using t [of 2] by (simp add: db pk)
  have chs: "connected_node_channels example_session = Some example_channels"
    by (simp add: example_session_def)
  have split: "example_channels = [example_channels ! 0] @ (example_channels ! 1) # [example_channels ! 2]"
    by (simp add: example_channels_def)
  have n0: "lower (name (settings (example_channels ! 0))) \<noteq> ''admin''"
    by (simp add: example_channels_def lower_def lower_char_admin)
  have n1: "lower (name (settings (example_channels ! 1))) = ''admin''"
    by (simp add: example_channels_def lower_def lower_char_admin)
  have pre3: "(3::int) \<noteq> my_node_num \<lparr>my_node_num = 1\<rparr>
     \<and> \<not> ((\<exists>n. node_database example_session (my_node_num \<lparr>my_node_num = 1\<rparr>) = Some n
                  \<and> hasPKC n = Some True)
            \<and> (\<exists>n. node_database example_session 3 = Some n \<and> hasPKC n = Some True))"
    by (simp add: db pk)
  from t [of 3] pre3
  have "\<forall>channels pre c post.
          connected_node_channels example_session = Some channels \<and> channels = pre @ c # post
          \<and> (\<forall>p \<in> set pre. lower (name (settings p)) \<noteq> ''admin'')
          \<and> lower (name (settings c)) = ''admin''
          \<longrightarrow> get_admin_channel_index example_session 3 = Inr (index c)"
    by blast
  from this [rule_format, of example_channels "[example_channels ! 0]" "example_channels ! 1"
      "[example_channels ! 2]"]
  have "get_admin_channel_index example_session 3 = Inr (index (example_channels ! 1))"
    using chs split n0 n1 by simp
  then have c3: "get_admin_channel_index example_session 3 = Inr 1"
    by (simp add: example_channels_def)
  let ?s = "example_session\<lparr>connected_node_channels := Some (take 1 example_channels)\<rparr>"
  have i: "connected_node_info ?s = Some \<lparr>my_node_num = 1\<rparr>" by (simp add: example_session_def)
  have db': "node_database ?s 1 = Some (example_node 1 (Some True))"
    "node_database ?s 3 = Some (example_node 3 None)"
    by (simp_all add: example_session_def)
  have "\<forall>c \<in> set (take 1 example_channels). lower (name (settings c)) \<noteq> ''admin''"
    by (simp add: example_channels_def lower_def lower_char_admin)
  then have none: "\<forall>channels. connected_node_channels ?s = Some channels
      \<longrightarrow> (\<forall>c \<in> set channels. lower (name (settings c)) \<noteq> ''admin'')"
    by simp
  have pre4: "(3::int) \<noteq> my_node_num \<lparr>my_node_num = 1\<rparr>
     \<and> \<not> ((\<exists>n. node_database ?s (my_node_num \<lparr>my_node_num = 1\<rparr>) = Some n
                  \<and> hasPKC n = Some True)
            \<and> (\<exists>n. node_database ?s 3 = Some n \<and> hasPKC n = Some True))"
    by (simp add: db db' pk)
  have c4: "get_admin_channel_index ?s 3 = Inr 0"
    using admin_channel_selection [OF i, of 3] pre4 none by blast
  show ?thesis using example_info c1 c2 c3 c4 by blast
qed

subsection \<open>Sending to a disabled channel\<close>

lemma check_channel_index_disabled:
  assumes "connected_node_channels self = Some channels"
    and "list_item channels i = Inr channel" and "role channel = DISABLED"
  shows "\<exists>msg. check_channel_index self (Some i) = Some (ValueError msg)"
proof -
  have "\<not> int (length channels) < i"
    using assms(2) by (auto simp: list_item_def split: if_splits)
  then show ?thesis using assms by (simp add: check_channel_index_def)
qed

lemma check_channel_index_passed:
  assumes "check_channel_index self (Some i) = None"
  shows "\<exists>channels channel. connected_node_channels self = Some channels
           \<and> list_item channels i = Inr channel \<and> role channel \<noteq> DISABLED"
  using assms
  by (auto simp: check_channel_index_def split: option.splits if_splits sum.splits)

lemma send_text_message_calls:
  assumes "call \<in> set (snd (send_text_message self int_hex conn msg_text destination want_ack channel_index))"
  shows "\<exists>to_node. resolve_destination int_hex destination channel_index
             = Inr (to_node, arg_channel_index call)
           \<and> check_channel_index self (arg_channel_index call) = None"
  using assms
  by (auto simp: send_text_message_def Let_def split: sum.splits option.splits prod.splits)

text \<open>
  C3, as the code has it. Whenever the channel index in effect for a text message names
  an entry of the channel list of the connected device that is disabled,
  \<open>send_text_message\<close> raises \<^verbatim>\<open>ValueError\<close> and has made no call on the connection.
  The index in effect is the explicit \<^verbatim>\<open>channel_index\<close> argument for every
  destination but a node record, which discards it (a direct message, sent with no
  channel index), and a channel record, which replaces it by its own index. So with an
  explicit \<^verbatim>\<open>channel_index\<close> that names a disabled channel, a send to any other
  destination raises \<^verbatim>\<open>ValueError\<close> with no call made (given that \<^verbatim>\<open>int(s, 16)\<close>
  raises nothing but \<^verbatim>\<open>ValueError\<close>). Conversely every call that reaches the
  connection with a channel index names an entry that exists and is not disabled.
\<close>

theorem send_text_message_disabled_channel:
  "(\<forall>to_node i channels channel.
      resolve_destination int_hex destination channel_index = Inr (to_node, Some i)
      \<and> connected_node_channels self = Some channels
      \<and> list_item channels i = Inr channel \<and> role channel = DISABLED
      \<longrightarrow> (\<exists>msg. send_text_message self int_hex conn msg_text destination want_ack channel_index
                   = (Inl (ValueError msg), [])))
   \<and> (\<forall>call i.
        call \<in> set (snd (send_text_message self int_hex conn msg_text destination want_ack channel_index))
        \<and> arg_channel_index call = Some i
        \<longrightarrow> (\<exists>channels channel. connected_node_channels self = Some channels
               \<and> list_item channels i = Inr channel \<and> role channel \<noteq> DISABLED))
   \<and> (\<forall>to_node ci.
        (\<forall>n. destination \<noteq> DestNode n) \<and> (\<forall>c. destination \<noteq> DestChannel c)
        \<and> resolve_destination int_hex destination channel_index = Inr (to_node, ci)
        \<longrightarrow> ci = channel_index)
   \<and> ((\<forall>s e. int_hex s = Inl e \<longrightarrow> (\<exists>m. e = ValueError m))
       \<and> (\<forall>n. destination \<noteq> DestNode n) \<and> (\<forall>c. destination \<noteq> DestChannel c)
       \<and> channel_index = Some k \<and> connected_node_channels self = Some chs
       \<and> list_item chs k = Inr ch \<and> role ch = DISABLED
       \<longrightarrow> (\<exists>msg. send_text_message self int_hex conn msg_text destination want_ack channel_index
                   = (Inl (ValueError msg), [])))
   \<and> (\<forall>n. resolve_destination int_hex (DestNode n) channel_index = Inr (id_num n, None))
   \<and> (\<forall>c. resolve_destination int_hex (DestChannel c) channel_index
            = Inr (BROADCAST_NUM, mc_index c))"
proof -
  have 1: "\<exists>msg. send_text_message self int_hex conn msg_text destination want_ack channel_index
                   = (Inl (ValueError msg), [])"
    if prem: "resolve_destination int_hex destination channel_index = Inr (to_node, Some i)
      \<and> connected_node_channels self = Some channels
      \<and> list_item channels i = Inr channel \<and> role channel = DISABLED"
    for to_node i channels channel
  proof -
    obtain msg where "check_channel_index self (Some i) = Some (ValueError msg)"
      using prem check_channel_index_disabled by blast
    then show ?thesis using prem by (simp add: send_text_message_def)
  qed
  have 2: "\<exists>channels channel. connected_node_channels self = Some channels
               \<and> list_item channels i = Inr channel \<and> role channel \<noteq> DISABLED"
    if "call \<in> set (snd (send_text_message self int_hex conn msg_text destination want_ack channel_index))
        \<and> arg_channel_index call = Some i"
    for call i
    using that send_text_message_calls [of call self int_hex conn msg_text destination want_ack channel_index]
      check_channel_index_passed [of self i] by auto
  have 3: "ci = channel_index"
    if "(\<forall>n. destination \<noteq> DestNode n) \<and> (\<forall>c. destination \<noteq> DestChannel c)
        \<and> resolve_destination int_hex destination channel_index = Inr (to_node, ci)"
    for to_node ci
    using that
    by (cases destination) (auto simp: resolve_destination_def split: if_splits sum.splits)
  have 4: "\<exists>msg. send_text_message self int_hex conn msg_text destination want_ack channel_index
                   = (Inl (ValueError msg), [])"
    if h: "(\<forall>s e. int_hex s = Inl e \<longrightarrow> (\<exists>m. e = ValueError m))
       \<and> (\<forall>n. destination \<noteq> DestNode n) \<and> (\<forall>c. destination \<noteq> DestChannel c)
       \<and> channel_index = Some k \<and> connected_node_channels self = Some chs
       \<and> list_item chs k = Inr ch \<and> role ch = DISABLED"
  proof (cases "resolve_destination int_hex destination channel_index")
    case (Inl e)
    have "\<exists>m. e = ValueError m"
      using Inl h
      by (cases destination) (auto simp: resolve_destination_def split: if_splits sum.splits)
    then show ?thesis using Inl by (auto simp: send_text_message_def)
  next
    case (Inr r)
    obtain to_node ci where r: "r = (to_node, ci)" by (cases r)
    have "ci = Some k" using 3 [of to_node ci] h Inr r by simp
    then show ?thesis using 1 [of to_node k chs ch] h Inr r by simp
  qed
  have 5: "\<forall>n. resolve_destination int_hex (DestNode n) channel_index = Inr (id_num n, None)"
    and 6: "\<forall>c. resolve_destination int_hex (DestChannel c) channel_index
            = Inr (BROADCAST_NUM, mc_index c)"
    by (simp_all add: resolve_destination_def)
  show ?thesis using 1 2 3 4 5 6 by blast
qed

theorem send_text_message_disabled_channel_witness:
  "resolve_destination (\<lambda>s. Inr 2) (DestStr ''!00000002'') (Some 2) = Inr (2, Some 2)
   \<and> connected_node_channels example_session = Some example_channels
   \<and> list_item example_channels 2 = Inr (example_channels ! 2)
   \<and> role (example_channels ! 2) = DISABLED
   \<and> (\<exists>msg. send_text_message example_session (\<lambda>s. Inr 2) (\<lambda>c. Inr ()) ''hi''
               (DestStr ''!00000002'') True (Some 2) = (Inl (ValueError msg), []))
   \<and> snd (send_text_message example_session (\<lambda>s. Inr 2) (\<lambda>c. Inr ()) ''hi''
               (DestStr ''!00000002'') True (Some 1))
       = [\<lparr>arg_channel_index = Some 1, arg_to_node = 2, arg_message = ''hi'',
           arg_port_num = TEXT_MESSAGE_APP, arg_priority = RELIABLE,
           arg_want_response = False, arg_ack = True\<rparr>]
   \<and> (\<exists>channel. list_item example_channels 1 = Inr channel \<and> role channel \<noteq> DISABLED)"
proof -
  let ?int_hex = "\<lambda>s :: string. (Inr 2 :: py_error + int)"
  let ?conn = "\<lambda>c :: mesh_packet_call. (Inr () :: py_error + unit)"
  let ?d = "DestStr ''!00000002''"
  have r: "resolve_destination ?int_hex ?d (Some 2) = Inr (2, Some 2)"
    by (simp add: resolve_destination_def)
  have c: "connected_node_channels example_session = Some example_channels"
    by (simp add: example_session_def)
  have l: "list_item example_channels 2 = Inr (example_channels ! 2)"
    by (simp add: list_item_def example_channels_def)
  have d: "role (example_channels ! 2) = DISABLED" by (simp add: example_channels_def)
  note t2 = send_text_message_disabled_channel
    [where int_hex = ?int_hex and destination = ?d and channel_index = "Some 2"
       and self = example_session and conn = ?conn and msg_text = "''hi''" and want_ack = True]
  note t1 = send_text_message_disabled_channel
    [where int_hex = ?int_hex and destination = ?d and channel_index = "Some 1"
       and self = example_session and conn = ?conn and msg_text = "''hi''" and want_ack = True]
  have a: "\<exists>msg. send_text_message example_session ?int_hex ?conn ''hi'' ?d True (Some 2)
               = (Inl (ValueError msg), [])"
    using t2 r c l d by blast
  have s: "snd (send_text_message example_session ?int_hex ?conn ''hi'' ?d True (Some 1))
       = [\<lparr>arg_channel_index = Some 1, arg_to_node = 2, arg_message = ''hi'',
           arg_port_num = TEXT_MESSAGE_APP, arg_priority = RELIABLE,
           arg_want_response = False, arg_ack = True\<rparr>]"
    by (simp add: send_text_message_def resolve_destination_def check_channel_index_def
        example_session_def example_channels_def list_item_def)
  have "\<exists>channels channel. connected_node_channels example_session = Some channels
               \<and> list_item channels 1 = Inr channel \<and> role channel \<noteq> DISABLED"
    using t1 s by (simp add: exI)
  then have b: "\<exists>channel. list_item example_channels 1 = Inr channel \<and> role channel \<noteq> DISABLED"
    using c by simp
  show ?thesis using r c l d a s b by blast
qed

text \<open>
  The claim as stated, for every explicit index of a disabled channel, fails for the two
  kinds of destination that do not keep the explicit index. Channel 2 of the example is
  disabled; with \<^verbatim>\<open>channel_index=2\<close> a message to a node record is submitted with no
  channel index, and a message to the channel record of channel 0 is submitted on
  channel 0.
\<close>

theorem explicit_disabled_index_counterexample:
  "connected_node_channels example_session = Some example_channels
   \<and> list_item example_channels 2 = Inr (example_channels ! 2)
   \<and> role (example_channels ! 2) = DISABLED
   \<and> send_text_message example_session (\<lambda>s. Inr 2) (\<lambda>c. Inr ()) ''hi''
        (DestNode (stub_node 2)) False (Some 2)
      = (Inr (),
         [\<lparr>arg_channel_index = None, arg_to_node = 2, arg_message = ''hi'',
           arg_port_num = TEXT_MESSAGE_APP, arg_priority = DEFAULT,
           arg_want_response = False, arg_ack = False\<rparr>])
   \<and> send_text_message example_session (\<lambda>s. Inr 2) (\<lambda>c. Inr ()) ''hi''
        (DestChannel \<lparr>mc_index = Some 0, mc_name = ''LongFast''\<rparr>) False (Some 2)
      = (Inr (),
         [\<lparr>arg_channel_index = Some 0, arg_to_node = 0xFFFFFFFF, arg_message = ''hi'',
           arg_port_num = TEXT_MESSAGE_APP, arg_priority = DEFAULT,
           arg_want_response = False, arg_ack = False\<rparr>])"
  by (simp add: send_text_message_def resolve_destination_def check_channel_index_def
      example_session_def example_channels_def list_item_def stub_node_def Let_def
      BROADCAST_NUM_def)

subsection \<open>The local device is visible only when ready\<close>

text \<open>
  C9. While the ready flag is not set, the five queries of the connected device (its node
  record, metadata, channel list, local configuration and module configuration) return
  \<^verbatim>\<open>None\<close>, whatever the snapshot holds; so a query that returns a value shows that the
  flag is set. \<open>_start_config\<close> clears the flag before it resets the snapshot, and leaves
  it cleared when the request for the configuration fails.
\<close>

theorem local_device_hidden_unless_ready:
  "(\<not> connected_node_ready self \<longrightarrow>
      connected_node self = Inr None
      \<and> connected_node_metadata_query self = None
      \<and> connected_node_channels_query self = None
      \<and> connected_node_local_config_query self = None
      \<and> connected_node_module_config_query self = None)
   \<and> ((\<exists>n. connected_node self = Inr (Some n))
        \<or> connected_node_metadata_query self \<noteq> None
        \<or> connected_node_channels_query self \<noteq> None
        \<or> connected_node_local_config_query self \<noteq> None
        \<or> connected_node_module_config_query self \<noteq> None
       \<longrightarrow> connected_node_ready self)
   \<and> \<not> connected_node_ready (start_config_reset self)
   \<and> \<not> connected_node_ready (snd (start_config self (Some e)))
   \<and> connected_node_ready (snd (start_config self None))"
  by (auto simp: connected_node_def connected_node_metadata_query_def
      connected_node_channels_query_def connected_node_local_config_query_def
      connected_node_module_config_query_def start_config_reset_def start_config_def Let_def
      split: option.splits if_splits)

theorem local_device_hidden_unless_ready_witness:
  "\<not> connected_node_ready (example_session\<lparr>connected_node_ready := False\<rparr>)
   \<and> connected_node_metadata (example_session\<lparr>connected_node_ready := False\<rparr>) = Some 7
   \<and> connected_node (example_session\<lparr>connected_node_ready := False\<rparr>) = Inr None
   \<and> connected_node_metadata_query (example_session\<lparr>connected_node_ready := False\<rparr>) = None
   \<and> connected_node_channels_query (example_session\<lparr>connected_node_ready := False\<rparr>) = None
   \<and> connected_node_local_config_query (example_session\<lparr>connected_node_ready := False\<rparr>) = None
   \<and> connected_node_module_config_query (example_session\<lparr>connected_node_ready := False\<rparr>) = None
   \<and> connected_node_metadata_query example_session = Some 7
   \<and> connected_node_ready example_session"
proof -
  let ?s = "example_session\<lparr>connected_node_ready := False\<rparr>"
  have n: "\<not> connected_node_ready ?s" by simp
  have m: "connected_node_metadata ?s = Some 7" by (simp add: example_session_def)
  have q: "connected_node_metadata_query example_session = Some 7"
    by (simp add: connected_node_metadata_query_def example_session_def)
  then have "connected_node_metadata_query example_session \<noteq> None" by simp
  then have r: "connected_node_ready example_session"
    using local_device_hidden_unless_ready [of example_session] by blast
  show ?thesis
    using local_device_hidden_unless_ready [of ?s] n m q r by blast
qed

subsection \<open>Channel lookup by an index equal to the number of channels\<close>

lemma find_channel_index_beyond:
  assumes "connected_node_info self \<noteq> None" and "connected_node_channels self = Some channels"
    and "int (length channels) < i"
  shows "find_channel self (Some i) nm = Inr None"
  using assms by (simp add: find_channel_def)

lemma find_channel_index_length:
  assumes "connected_node_info self \<noteq> None" and "connected_node_channels self = Some channels"
  shows "find_channel self (Some (int (length channels))) nm = Inl IndexError"
  using assms by (simp add: find_channel_def list_item_def)

text \<open>
  C10. The claim is that \<open>find_channel\<close> with a non-negative index returns a channel or
  \<^verbatim>\<open>None\<close> and never raises for an index out of range. The guard of the source is
  \<^verbatim>\<open>len(channels) < index\<close>, so an index equal to the length passes it and the
  subscript raises \<^verbatim>\<open>IndexError\<close>: with the three channels of the example, index 4
  gives \<^verbatim>\<open>None\<close> and index 3 raises.
\<close>

theorem find_channel_index_equal_length_raises:
  "connected_node_channels example_session = Some example_channels
   \<and> length example_channels = 3
   \<and> find_channel example_session (Some 4) None = Inr None
   \<and> find_channel example_session (Some 3) None = Inl IndexError"
proof -
  have i: "connected_node_info example_session \<noteq> None"
    and c: "connected_node_channels example_session = Some example_channels"
    by (simp_all add: example_session_def)
  have l: "length example_channels = 3" by (simp add: example_channels_def)
  have "find_channel example_session (Some 4) None = Inr None"
    using find_channel_index_beyond [OF i c, of 4] l by simp
  moreover have "find_channel example_session (Some 3) None = Inl IndexError"
    using find_channel_index_length [OF i c, of None] l by simp
  ultimately show ?thesis using c l by blast
qed

subsection \<open>Partial merge of configuration frames\<close>

lemma copy_if_present_other:
  assumes "\<And>v s. sel (upd (\<lambda>_. v) s) = sel s"
  shows "sel (copy_if_present x upd s) = sel s"
  by (cases x) (simp_all add: copy_if_present_def assms)

lemma copy_if_present_same:
  assumes "\<And>v s. sel (upd (\<lambda>_. v) s) = v"
  shows "sel (copy_if_present x upd s) = (case x of None \<Rightarrow> sel s | Some v \<Rightarrow> v)"
  by (cases x) (simp_all add: copy_if_present_def assms)

lemmas local_config_copy =
  copy_if_present_other [of lc_device] copy_if_present_same [of lc_device]
  copy_if_present_other [of lc_position] copy_if_present_same [of lc_position]
  copy_if_present_other [of lc_power] copy_if_present_same [of lc_power]
  copy_if_present_other [of lc_network] copy_if_present_same [of lc_network]
  copy_if_present_other [of lc_display] copy_if_present_same [of lc_display]
  copy_if_present_other [of lc_lora] copy_if_present_same [of lc_lora]
  copy_if_present_other [of lc_bluetooth] copy_if_present_same [of lc_bluetooth]
  copy_if_present_other [of lc_security] copy_if_present_same [of lc_security]

lemmas module_config_copy =
  copy_if_present_other [of lm_mqtt] copy_if_present_same [of lm_mqtt]
  copy_if_present_other [of lm_serial] copy_if_present_same [of lm_serial]
  copy_if_present_other [of lm_external_notification]
  copy_if_present_same [of lm_external_notification]
  copy_if_present_other [of lm_store_forward] copy_if_present_same [of lm_store_forward]
  copy_if_present_other [of lm_range_test] copy_if_present_same [of lm_range_test]
  copy_if_present_other [of lm_telemetry] copy_if_present_same [of lm_telemetry]
  copy_if_present_other [of lm_canned_message] copy_if_present_same [of lm_canned_message]
  copy_if_present_other [of lm_audio] copy_if_present_same [of lm_audio]
  copy_if_present_other [of lm_remote_hardware] copy_if_present_same [of lm_remote_hardware]
  copy_if_present_other [of lm_neighbor_info] copy_if_present_same [of lm_neighbor_info]
  copy_if_present_other [of lm_detection_sensor] copy_if_present_same [of lm_detection_sensor]
  copy_if_present_other [of lm_ambient_lighting] copy_if_present_same [of lm_ambient_lighting]
  copy_if_present_other [of lm_paxcounter] copy_if_present_same [of lm_paxcounter]

lemma process_config_frame_value:
  "snapshot_value f (process_config_frame self frame) =
     (case frame_value f frame of None \<Rightarrow> snapshot_value f self | Some v \<Rightarrow> v)"
proof (cases frame)
  case (ConfigFrame c)
  show ?thesis unfolding ConfigFrame
    by (cases f)
      (simp_all add: process_connected_node_config_def process_connected_node_config_snapshot_def
        local_config_copy cong: option.case_cong)
next
  case (ModuleConfigFrame c)
  show ?thesis unfolding ModuleConfigFrame
    by (cases f)
      (simp_all add: process_connected_node_module_config_def
        process_connected_node_module_config_snapshot_def module_config_copy
        cong: option.case_cong)
qed

lemma process_config_frames_value:
  "snapshot_value f (process_config_frames self frames) =
     (case last_seen f frames of None \<Rightarrow> snapshot_value f self | Some v \<Rightarrow> v)"
proof (induction frames arbitrary: self)
  case Nil
  show ?case by (simp add: process_config_frames_def)
next
  case (Cons frame frames)
  have "process_config_frames self (frame # frames)
      = process_config_frames (process_config_frame self frame) frames"
    by (simp add: process_config_frames_def)
  then show ?case
    using Cons [of "process_config_frame self frame"]
    by (simp add: process_config_frame_value split: option.split)
qed

lemma process_config_frame_rest:
  "process_config_frame self frame =
     self\<lparr>connected_node_local_config :=
            connected_node_local_config (process_config_frame self frame),
          connected_node_module_config :=
            connected_node_module_config (process_config_frame self frame)\<rparr>"
  by (cases frame)
    (simp_all add: process_connected_node_config_def process_connected_node_module_config_def)

lemma local_config_eqI:
  assumes "\<And>f. snapshot_value f s = snapshot_value f t"
  shows "connected_node_local_config s = connected_node_local_config t"
  using assms [of Device] assms [of Position] assms [of Power] assms [of Network]
    assms [of Display] assms [of Lora] assms [of Bluetooth] assms [of Security]
  by (simp add: LocalConfig.equality)

lemma module_config_eqI:
  assumes "\<And>f. snapshot_value f s = snapshot_value f t"
  shows "connected_node_module_config s = connected_node_module_config t"
  using assms [of Mqtt] assms [of Serial] assms [of ExternalNotification]
    assms [of StoreForward] assms [of RangeTest] assms [of Telemetry]
    assms [of CannedMessage] assms [of Audio] assms [of RemoteHardware]
    assms [of NeighborInfo] assms [of DetectionSensor] assms [of AmbientLighting]
    assms [of Paxcounter]
  by (simp add: LocalModuleConfig.equality)

lemma process_config_frame_commute:
  assumes "\<And>g. frame_value g a = None \<or> frame_value g b = None"
  shows "process_config_frame (process_config_frame self a) b
       = process_config_frame (process_config_frame self b) a"
proof -
  let ?ab = "process_config_frame (process_config_frame self a) b"
  let ?ba = "process_config_frame (process_config_frame self b) a"
  have v: "snapshot_value f ?ab = snapshot_value f ?ba" for f
    using assms [of f] by (auto simp: process_config_frame_value split: option.split)
  have "?ab = self\<lparr>connected_node_local_config := connected_node_local_config ?ab,
                    connected_node_module_config := connected_node_module_config ?ab\<rparr>"
    using process_config_frame_rest [of "process_config_frame self a" b]
      process_config_frame_rest [of self a]
    by (metis (no_types, lifting) MeshInterface.surjective MeshInterface.update_convs(7,8))
  moreover have "?ba = self\<lparr>connected_node_local_config := connected_node_local_config ?ba,
                    connected_node_module_config := connected_node_module_config ?ba\<rparr>"
    using process_config_frame_rest [of "process_config_frame self b" a]
      process_config_frame_rest [of self b]
    by (metis (no_types, lifting) MeshInterface.surjective MeshInterface.update_convs(7,8))
  ultimately show ?thesis
    using local_config_eqI [of ?ab ?ba, OF v] module_config_eqI [of ?ab ?ba, OF v] by simp
qed

lemma process_config_frames_rest:
  "process_config_frames self frames =
     self\<lparr>connected_node_local_config :=
            connected_node_local_config (process_config_frames self frames),
          connected_node_module_config :=
            connected_node_module_config (process_config_frames self frames)\<rparr>"
proof (induction frames arbitrary: self)
  case Nil
  show ?case by (simp add: process_config_frames_def)
next
  case (Cons frame frames)
  have step: "process_config_frames self (frame # frames)
      = process_config_frames (process_config_frame self frame) frames"
    by (simp add: process_config_frames_def)
  show ?case
    unfolding step
    using Cons [of "process_config_frame self frame"] process_config_frame_rest [of self frame]
    by (metis (no_types, lifting) MeshInterface.surjective MeshInterface.update_convs(7,8))
qed

lemma process_config_frames_same_last_seen:
  assumes "\<And>g. last_seen g xs = last_seen g ys"
  shows "process_config_frames self xs = process_config_frames self ys"
proof -
  let ?x = "process_config_frames self xs"
  let ?y = "process_config_frames self ys"
  have v: "snapshot_value f ?x = snapshot_value f ?y" for f
    using assms [of f] by (simp add: process_config_frames_value)
  show ?thesis
    using process_config_frames_rest [of self xs] process_config_frames_rest [of self ys]
      local_config_eqI [of ?x ?y, OF v] module_config_eqI [of ?x ?y, OF v]
    by simp
qed

text \<open>
  C6. Processing one configuration or module-configuration frame sets each sub-field the
  frame carries to the value carried and leaves every other sub-field of the snapshot as
  it was. So after any sequence of frames the snapshot holds, for each sub-field, the
  value of the last frame that carried it (or the initial value, if none did); two
  sequences with the same last values give the same session, and in particular two
  frames that carry no common sub-field can be processed in either order.
\<close>

theorem config_snapshot_last_seen:
  "snapshot_value f (process_config_frames self frames) =
     (case last_seen f frames of None \<Rightarrow> snapshot_value f self | Some v \<Rightarrow> v)
   \<and> snapshot_value f (process_config_frame self frame) =
     (case frame_value f frame of None \<Rightarrow> snapshot_value f self | Some v \<Rightarrow> v)
   \<and> ((\<forall>g. last_seen g xs = last_seen g ys)
        \<longrightarrow> process_config_frames self xs = process_config_frames self ys)
   \<and> ((\<forall>g. frame_value g a = None \<or> frame_value g b = None)
        \<longrightarrow> process_config_frames self [a, b] = process_config_frames self [b, a])"
proof -
  have "process_config_frames self [a, b] = process_config_frames self [b, a]"
    if "\<forall>g. frame_value g a = None \<or> frame_value g b = None"
    using that process_config_frame_commute [of a b self]
    by (simp add: process_config_frames_def)
  then show ?thesis
    using process_config_frames_value process_config_frame_value
      process_config_frames_same_last_seen [of xs ys self]
    by blast
qed

theorem config_snapshot_last_seen_witness:
  "snapshot_value Lora (process_config_frames example_session
      [ConfigFrame (no_config\<lparr>lora := Some 5\<rparr>),
       ModuleConfigFrame (no_module_config\<lparr>mqtt := Some 9\<rparr>),
       ConfigFrame (no_config\<lparr>lora := Some 6\<rparr>)]) = 6
   \<and> snapshot_value Mqtt (process_config_frames example_session
      [ConfigFrame (no_config\<lparr>lora := Some 5\<rparr>),
       ModuleConfigFrame (no_module_config\<lparr>mqtt := Some 9\<rparr>),
       ConfigFrame (no_config\<lparr>lora := Some 6\<rparr>)]) = 9
   \<and> snapshot_value Device (process_config_frames example_session
      [ConfigFrame (no_config\<lparr>lora := Some 5\<rparr>),
       ModuleConfigFrame (no_module_config\<lparr>mqtt := Some 9\<rparr>),
       ConfigFrame (no_config\<lparr>lora := Some 6\<rparr>)]) = 0
   \<and> process_config_frames example_session
        [ConfigFrame (no_config\<lparr>lora := Some 5\<rparr>),
         ModuleConfigFrame (no_module_config\<lparr>mqtt := Some 9\<rparr>)]
     = process_config_frames example_session
        [ModuleConfigFrame (no_module_config\<lparr>mqtt := Some 9\<rparr>),
         ConfigFrame (no_config\<lparr>lora := Some 5\<rparr>)]"
proof -
  let ?a = "ConfigFrame (no_config\<lparr>lora := Some 5\<rparr>)"
  let ?b = "ModuleConfigFrame (no_module_config\<lparr>mqtt := Some 9\<rparr>)"
  let ?c = "ConfigFrame (no_config\<lparr>lora := Some 6\<rparr>)"
  have init: "snapshot_value Device example_session = 0"
    by (simp add: example_session_def)
  have 1: "snapshot_value Lora (process_config_frames example_session [?a, ?b, ?c]) = 6"
    using config_snapshot_last_seen [of Lora example_session "[?a, ?b, ?c]"]
    by (simp add: no_config_def no_module_config_def)
  have 2: "snapshot_value Mqtt (process_config_frames example_session [?a, ?b, ?c]) = 9"
    using config_snapshot_last_seen [of Mqtt example_session "[?a, ?b, ?c]"]
    by (simp add: no_config_def no_module_config_def)
  have 3: "snapshot_value Device (process_config_frames example_session [?a, ?b, ?c]) = 0"
    using config_snapshot_last_seen [of Device example_session "[?a, ?b, ?c]"] init
    by (simp add: no_config_def no_module_config_def)
  have d: "frame_value g ?a = None \<or> frame_value g ?b = None" for g
    by (cases g) (simp_all add: no_config_def no_module_config_def)
  have 4: "process_config_frames example_session [?a, ?b]
      = process_config_frames example_session [?b, ?a]"
    using config_snapshot_last_seen [of Lora example_session "[]" ?a "[]" "[]" ?a ?b] d
    by blast
  show ?thesis using 1 2 3 4 by blast
qed

subsection \<open>Stopping the session\<close>

lemma cancel_task_done: "cancel_task s = Some s' \<Longrightarrow> is_done s'"
  by (auto simp: cancel_task_def is_done_def split: task_state.splits if_splits)

lemma cancel_task_of_done: "is_done s \<Longrightarrow> cancel_task s = Some s"
  by (auto simp: cancel_task_def is_done_def split: task_state.splits)

lemma wait_cancelled_some:
  assumes "wait_cancelled ts rt = Some rt'"
  shows "\<forall>t \<in> ts. is_done (tasks rt' t)"
    and "\<forall>t. is_done (tasks rt t) \<longrightarrow> tasks rt' t = tasks rt t"
    and "closed_listeners rt' = closed_listeners rt"
    and "connection_calls rt' = connection_calls rt"
proof -
  have none: "\<forall>t \<in> ts. cancel_task (tasks rt t) \<noteq> None"
    and rt': "rt' = cancel_requested ts rt"
    using assms by (auto simp: wait_cancelled_def split: if_splits)
  show "\<forall>t \<in> ts. is_done (tasks rt' t)"
    using none cancel_task_done by (auto simp: rt' cancel_requested_def split: option.splits)
  show "\<forall>t. is_done (tasks rt t) \<longrightarrow> tasks rt' t = tasks rt t"
    by (auto simp: rt' cancel_requested_def cancel_task_of_done)
  show "closed_listeners rt' = closed_listeners rt" "connection_calls rt' = connection_calls rt"
    by (simp_all add: rt' cancel_requested_def)
qed

lemma wait_cancelled_ends:
  assumes "\<forall>t \<in> ts. tasks rt t \<noteq> Running False"
  shows "\<exists>rt'. wait_cancelled ts rt = Some rt'"
proof -
  have "cancel_task (tasks rt t) \<noteq> None" if "t \<in> ts" for t
    using assms that by (cases "tasks rt t") (auto simp: cancel_task_def)
  then show ?thesis by (simp add: wait_cancelled_def)
qed

lemma close_packet_streams_eq:
  "close_packet_streams self rt =
     (self\<lparr>packet_stream_listeners := []\<rparr>,
      rt\<lparr>closed_listeners := closed_listeners rt \<union> set (packet_stream_listeners self)\<rparr>)"
  by (simp add: close_packet_streams_def)

lemma cancels_caller_mono: "cancels_caller caller ts \<Longrightarrow> ts \<subseteq> us \<Longrightarrow> cancels_caller caller us"
  by (auto simp: cancels_caller_def)

lemma cancel_processing_tasks_some:
  assumes "\<not> cancels_caller caller (processing_tasks self \<union> background_tasks self)"
    and "cancel_processing_tasks caller self rt = Some (err, self', rt')"
  shows "\<forall>t \<in> processing_tasks self. is_done (tasks rt' t)"
    and "\<forall>t \<in> background_tasks self - background_tasks self'. is_done (tasks rt' t)"
    and "background_tasks self' \<subseteq> background_tasks self"
    and "\<forall>t. is_done (tasks rt t) \<longrightarrow> tasks rt' t = tasks rt t"
    and "self' = self\<lparr>processing_tasks := {}, background_tasks := background_tasks self'\<rparr>"
    and "closed_listeners rt' = closed_listeners rt"
    and "connection_calls rt' = connection_calls rt"
    and "err = None"
proof -
  show "\<forall>t \<in> processing_tasks self. is_done (tasks rt' t)"
    "\<forall>t \<in> background_tasks self - background_tasks self'. is_done (tasks rt' t)"
    "background_tasks self' \<subseteq> background_tasks self"
    "\<forall>t. is_done (tasks rt t) \<longrightarrow> tasks rt' t = tasks rt t"
    "closed_listeners rt' = closed_listeners rt"
    "connection_calls rt' = connection_calls rt"
    "err = None"
    using assms wait_cancelled_some [of "processing_tasks self \<union> background_tasks self" rt rt']
    by (auto simp: cancel_processing_tasks_def discard_done_def split: if_splits option.splits)
  show "self' = self\<lparr>processing_tasks := {}, background_tasks := background_tasks self'\<rparr>"
    using assms
    by (auto simp: cancel_processing_tasks_def discard_done_def split: if_splits option.splits)
qed

lemma cancel_background_tasks_some:
  assumes "\<not> cancels_caller caller (background_tasks self)"
    and "cancel_background_tasks caller self rt = Some (err, self', rt')"
  shows "\<forall>t \<in> background_tasks self. is_done (tasks rt' t)"
    and "background_tasks self' = {}"
    and "\<forall>t. is_done (tasks rt t) \<longrightarrow> tasks rt' t = tasks rt t"
    and "self' = self\<lparr>background_tasks := {}\<rparr>"
    and "closed_listeners rt' = closed_listeners rt"
    and "connection_calls rt' = connection_calls rt"
    and "err = None"
proof -
  show 1: "\<forall>t \<in> background_tasks self. is_done (tasks rt' t)"
    and "\<forall>t. is_done (tasks rt t) \<longrightarrow> tasks rt' t = tasks rt t"
    and "closed_listeners rt' = closed_listeners rt"
    and "connection_calls rt' = connection_calls rt"
    and "err = None"
    using assms wait_cancelled_some [of "background_tasks self" rt rt']
    by (auto simp: cancel_background_tasks_def discard_done_def split: if_splits option.splits)
  show 2: "background_tasks self' = {}"
    using assms wait_cancelled_some(1) [of "background_tasks self" rt rt']
    by (auto simp: cancel_background_tasks_def discard_done_def split: if_splits option.splits)
  show "self' = self\<lparr>background_tasks := {}\<rparr>"
    using assms 2
    by (auto simp: cancel_background_tasks_def discard_done_def split: if_splits option.splits)
qed

lemma stop_running_some:
  assumes run: "is_running self"
    and caller: "\<not> cancels_caller caller (processing_tasks self \<union> background_tasks self)"
    and st: "stop caller self rt sd d = Some (err, self', rt')"
  shows "\<not> is_running self'" and "\<not> connected_node_ready self'"
    and "packet_stream_listeners self' = []"
    and "set (packet_stream_listeners self) \<subseteq> closed_listeners rt'"
    and "processing_tasks self' = {}" and "background_tasks self' = {}"
    and "\<forall>t \<in> processing_tasks self \<union> background_tasks self. is_done (tasks rt' t)"
    and "err = (if sd = Some CancelledError then Some CancelledError else d)"
proof -
  define s0 where "s0 = self\<lparr>is_running := False, connected_node_ready := False,
    packet_stream_listeners := []\<rparr>"
  define r0 where "r0 = rt\<lparr>closed_listeners :=
    closed_listeners rt \<union> set (packet_stream_listeners self)\<rparr>"
  have cl: "close_packet_streams (self\<lparr>is_running := False, connected_node_ready := False\<rparr>) rt
      = (s0, r0)"
    by (simp add: close_packet_streams_eq s0_def r0_def)
  have ps: "processing_tasks s0 = processing_tasks self"
    and bs: "background_tasks s0 = background_tasks self" by (simp_all add: s0_def)
  have c0: "\<not> cancels_caller caller (processing_tasks s0 \<union> background_tasks s0)"
    using caller by (simp add: ps bs)
  obtain e1 s1 r1 where p: "cancel_processing_tasks caller s0 r0 = Some (e1, s1, r1)"
    using st run by (auto simp: stop_def cl split: option.splits)
  note P = cancel_processing_tasks_some [OF c0 p]
  have e1: "e1 = None" using P(8) .
  have c1: "\<not> cancels_caller caller (background_tasks s1)"
    using c0 P(3) cancels_caller_mono [of caller "background_tasks s1"
      "processing_tasks s0 \<union> background_tasks s0"] by blast
  obtain e2 s2 r2 where b: "cancel_background_tasks caller s1 r1 = Some (e2, s2, r2)"
    using st run p e1 by (auto simp: stop_def cl split: option.splits)
  note B = cancel_background_tasks_some [OF c1 b]
  have e2: "e2 = None" using B(7) .
  have fin: "(err, self', rt') = disconnect_connection s2 r2 sd d"
    using st run p b e1 e2 by (simp add: stop_def cl)
  then have self': "self' = s2" and tasks': "tasks rt' = tasks r2"
    and closed': "closed_listeners rt' = closed_listeners r2"
    and err: "err = (if sd = Some CancelledError then Some CancelledError else d)"
    by (auto simp: disconnect_connection_def Let_def split: if_splits)
  show "err = (if sd = Some CancelledError then Some CancelledError else d)" using err .
  have s1: "s1 = s0\<lparr>processing_tasks := {}, background_tasks := background_tasks s1\<rparr>"
    using P(5) .
  have s2: "s2 = s1\<lparr>background_tasks := {}\<rparr>" using B(4) .
  show "\<not> is_running self'" "\<not> connected_node_ready self'"
    "packet_stream_listeners self' = []" "processing_tasks self' = {}"
    "background_tasks self' = {}"
    unfolding self' by (subst s2, subst s1, simp add: s0_def)+
  show "set (packet_stream_listeners self) \<subseteq> closed_listeners rt'"
    unfolding closed' B(5) P(6) by (simp add: r0_def)
  show "\<forall>t \<in> processing_tasks self \<union> background_tasks self. is_done (tasks rt' t)"
  proof
    fix t assume t: "t \<in> processing_tasks self \<union> background_tasks self"
    have "is_done (tasks r1 t) \<or> t \<in> background_tasks s1"
      using t P(1,2) ps bs by auto
    then have "is_done (tasks r2 t)"
      using B(1,3) by auto
    then show "is_done (tasks rt' t)" by (simp add: tasks')
  qed
qed

lemma stop_running_returns:
  assumes run: "is_running self"
    and caller: "\<not> cancels_caller caller (processing_tasks self \<union> background_tasks self)"
    and ends: "\<forall>t \<in> processing_tasks self \<union> background_tasks self. tasks rt t \<noteq> Running False"
  shows "\<exists>err self' rt'. stop caller self rt sd d = Some (err, self', rt')"
proof -
  define s0 where "s0 = self\<lparr>is_running := False, connected_node_ready := False,
    packet_stream_listeners := []\<rparr>"
  define r0 where "r0 = rt\<lparr>closed_listeners :=
    closed_listeners rt \<union> set (packet_stream_listeners self)\<rparr>"
  have cl: "close_packet_streams (self\<lparr>is_running := False, connected_node_ready := False\<rparr>) rt
      = (s0, r0)"
    by (simp add: close_packet_streams_eq s0_def r0_def)
  have ps: "processing_tasks s0 = processing_tasks self"
    and bs: "background_tasks s0 = background_tasks self" and ts: "tasks r0 = tasks rt"
    by (simp_all add: s0_def r0_def)
  have c0: "\<not> cancels_caller caller (processing_tasks s0 \<union> background_tasks s0)"
    using caller by (simp add: ps bs)
  have "\<exists>r. wait_cancelled (processing_tasks s0 \<union> background_tasks s0) r0 = Some r"
    using ends by (intro wait_cancelled_ends) (simp add: ps bs ts)
  then have "\<exists>e1 s1 r1. cancel_processing_tasks caller s0 r0 = Some (e1, s1, r1)"
    using c0 by (auto simp: cancel_processing_tasks_def)
  then obtain e1 s1 r1 where p: "cancel_processing_tasks caller s0 r0 = Some (e1, s1, r1)"
    by blast
  note P = cancel_processing_tasks_some [OF c0 p]
  have c1: "\<not> cancels_caller caller (background_tasks s1)"
    using c0 P(3) cancels_caller_mono [of caller "background_tasks s1"
      "processing_tasks s0 \<union> background_tasks s0"] by blast
  have "tasks r1 t \<noteq> Running False" if "t \<in> background_tasks s1" for t
  proof (cases "processing_tasks s0 = {}")
    case True
    then have "s1 = s0" "r1 = r0" using p by (simp_all add: cancel_processing_tasks_def)
    then show ?thesis using that ends by (simp add: bs ts)
  next
    case False
    then obtain r where "wait_cancelled (processing_tasks s0 \<union> background_tasks s0) r0 = Some r"
      and "r1 = r"
      using p c0 by (auto simp: cancel_processing_tasks_def split: option.splits)
    then have "is_done (tasks r1 t)"
      using wait_cancelled_some(1) [of "processing_tasks s0 \<union> background_tasks s0" r0 r] that P(3)
      by auto
    then show ?thesis by (auto simp: is_done_def)
  qed
  then have "\<exists>r. wait_cancelled (background_tasks s1) r1 = Some r"
    by (intro wait_cancelled_ends) simp
  then have "\<exists>e2 s2 r2. cancel_background_tasks caller s1 r1 = Some (e2, s2, r2)"
    using c1 by (auto simp: cancel_background_tasks_def)
  then obtain e2 s2 r2 where b: "cancel_background_tasks caller s1 r1 = Some (e2, s2, r2)"
    by blast
  have e: "e1 = None" "e2 = None"
    using P(8) cancel_background_tasks_some(7) [OF c1 b] by simp_all
  show ?thesis
    using run p b e by (cases "disconnect_connection s2 r2 sd d") (simp add: stop_def cl)
qed

text \<open>
  What \<open>stop\<close> does when nothing is in its way. On a session that is not running it
  returns at once, raises nothing and changes nothing. On a running session, awaited
  from a task that the session does not track, it returns if every tracked task ends
  when cancelled; and whenever it returns, the flags are cleared, the listeners closed
  and forgotten, the two sets of tasks empty and no task that was tracked still running.
\<close>

lemma stop_when_cancellations_end:
  "(\<not> is_running self \<longrightarrow> stop caller self rt sd d = Some (None, self, rt))
   \<and> (is_running self
       \<and> \<not> cancels_caller caller (processing_tasks self \<union> background_tasks self)
       \<and> (\<forall>t \<in> processing_tasks self \<union> background_tasks self. tasks rt t \<noteq> Running False)
      \<longrightarrow> (\<exists>err self' rt'. stop caller self rt sd d = Some (err, self', rt')))
   \<and> (is_running self
       \<and> \<not> cancels_caller caller (processing_tasks self \<union> background_tasks self)
       \<and> stop caller self rt sd d = Some (err, self', rt')
      \<longrightarrow> \<not> is_running self' \<and> \<not> connected_node_ready self'
        \<and> packet_stream_listeners self' = []
        \<and> set (packet_stream_listeners self) \<subseteq> closed_listeners rt'
        \<and> processing_tasks self' = {} \<and> background_tasks self' = {}
        \<and> (\<forall>t \<in> processing_tasks self \<union> background_tasks self. is_done (tasks rt' t))
        \<and> err = (if sd = Some CancelledError then Some CancelledError else d)
        \<and> stop caller' self' rt' sd' d' = Some (None, self', rt'))"
proof -
  have noop: "stop k s r x y = Some (None, s, r)" if "\<not> is_running s"
    for s :: "'a MeshInterface" and k r x y
    using that by (simp add: stop_def)
  have ret: "\<exists>err self' rt'. stop caller self rt sd d = Some (err, self', rt')"
    if "is_running self
       \<and> \<not> cancels_caller caller (processing_tasks self \<union> background_tasks self)
       \<and> (\<forall>t \<in> processing_tasks self \<union> background_tasks self. tasks rt t \<noteq> Running False)"
    using that stop_running_returns by blast
  have post: "\<not> is_running self' \<and> \<not> connected_node_ready self'
        \<and> packet_stream_listeners self' = []
        \<and> set (packet_stream_listeners self) \<subseteq> closed_listeners rt'
        \<and> processing_tasks self' = {} \<and> background_tasks self' = {}
        \<and> (\<forall>t \<in> processing_tasks self \<union> background_tasks self. is_done (tasks rt' t))
        \<and> err = (if sd = Some CancelledError then Some CancelledError else d)
        \<and> stop caller' self' rt' sd' d' = Some (None, self', rt')"
    if h: "is_running self
       \<and> \<not> cancels_caller caller (processing_tasks self \<union> background_tasks self)
       \<and> stop caller self rt sd d = Some (err, self', rt')"
  proof -
    note s = stop_running_some [of self caller rt sd d err self' rt']
    have "\<not> is_running self'" using h s(1) by blast
    then have "stop caller' self' rt' sd' d' = Some (None, self', rt')" by (rule noop)
    then show ?thesis using h s by blast
  qed
  show ?thesis using noop [of self caller rt sd d] ret post by blast
qed

text \<open>
  Once the session is stopped and no further cancellation arrives, the loop of the
  heartbeat never ends: the sleep of the interval is over, the heartbeat succeeds or
  fails, and the reconnection loop returns at its first test.
\<close>

lemma heartbeat_loop_goes_on:
  assumes "\<forall>b \<in> set bs. interval_sleep b = Completed () \<and> heartbeat b \<noteq> WasCancelled
             \<and> (\<forall>c \<in> set (reconnecting b). \<not> cycle_running c)"
  shows "fst (heartbeat_loop self bs) = StillRunning"
  using assms
proof (induction bs arbitrary: self)
  case Nil
  show ?case by simp
next
  case (Cons b bs)
  have rest: "fst (heartbeat_loop s bs) = StillRunning" for s :: "'a MeshInterface"
    using Cons.IH [of s] Cons.prems by simp
  have rec: "reconnect_while_running self True (reconnecting b)
      = (if reconnecting b = [] then StillRunning else Returns, self, [])"
    using Cons.prems by (cases "reconnecting b") simp_all
  have aft: "fst (after acts r) = fst r" for acts and r :: "ending \<times> 'a MeshInterface \<times> action list"
    by (cases r) (simp add: after_def)
  show ?case
  proof (cases "heartbeat b")
    case (Completed u)
    then show ?thesis using Cons.prems rest by (simp add: aft)
  next
    case TimedOut
    then show ?thesis using Cons.prems rest by (simp add: aft rec)
  next
    case WasCancelled
    then show ?thesis using Cons.prems by simp
  next
    case Failed
    then show ?thesis using Cons.prems rest by (simp add: aft rec)
  qed
qed

lemma cancelled_while_reconnecting_goes_on:
  "fst (heartbeat_loop (example_session\<lparr>is_running := False\<rparr>) cancelled_while_reconnecting)
     = StillRunning"
  by (simp add: cancelled_while_reconnecting_def after_def)

text \<open>
  C8. The claim is that \<open>stop\<close> on a running session clears the flags, closes the
  listeners and cancels every tracked activity so that none remains running afterward.
  The code falls short of it on two inputs that the engine itself produces. First, a
  heartbeat task that is cancelled while it is inside \<^verbatim>\<open>_reconnect_while_running\<close>: the
  cancellation is caught there and the loop left with \<^verbatim>\<open>break\<close>, the \<^verbatim>\<open>while True\<close>
  of the heartbeat goes on, and \<open>stop\<close>, which awaits the task, never returns while the
  task keeps running. Second, \<open>stop\<close> awaited from the tracked task \<open>reconnect\<close> (task 2
  of the example): the task is among those cancelled, so \<open>stop\<close> raises the cancellation
  at its first wait, with the processing tasks not forgotten and the connection neither
  told nor closed.
\<close>

theorem stop_hangs_or_cancels_its_caller:
  "is_running example_session
   \<and> processing_tasks example_session = {0, 1} \<and> background_tasks example_session = {2}
   \<and> tasks example_runtime_reconnecting 0 = Running False
   \<and> stop None example_session example_runtime_reconnecting None None = None
   \<and> (\<exists>self' rt'.
        stop (Some 2) example_session example_runtime None None
          = Some (Some CancelledError, self', rt')
        \<and> processing_tasks self' = {0, 1} \<and> connection_calls rt' = [])"
proof -
  have run: "is_running example_session"
    and ps: "processing_tasks example_session = {0, 1}"
    and bs: "background_tasks example_session = {2}"
    by (simp_all add: example_session_def)
  have t0: "tasks example_runtime_reconnecting 0 = Running False"
    using cancelled_while_reconnecting_goes_on
    by (simp add: example_runtime_reconnecting_def ends_when_cancelled_def)
  have "wait_cancelled ({0, 1} \<union> {2}) (example_runtime_reconnecting
      \<lparr>closed_listeners := closed_listeners example_runtime_reconnecting
         \<union> set (packet_stream_listeners example_session)\<rparr>) = None"
    using t0 by (simp add: wait_cancelled_def cancel_task_def)
  then have hang: "stop None example_session example_runtime_reconnecting None None = None"
    using run ps bs
    by (simp add: stop_def close_packet_streams_eq cancel_processing_tasks_def
        cancels_caller_def)
  have self_cancel: "\<exists>self' rt'.
        stop (Some 2) example_session example_runtime None None
          = Some (Some CancelledError, self', rt')
        \<and> processing_tasks self' = {0, 1} \<and> connection_calls rt' = []"
    using run ps bs
    by (simp add: stop_def close_packet_streams_eq cancel_processing_tasks_def
        cancels_caller_def Let_def discard_done_def cancel_requested_def example_runtime_def)
  show ?thesis using run ps bs t0 hang self_cancel by blast
qed

subsection \<open>The self-restarting activity\<close>

lemma actions_after [simp]: "actions (after acts r) = acts @ actions r"
  by (cases r) (simp add: actions_def after_def)

lemma process_while_running_sleeps:
  "a \<in> set (actions (process_while_running ps)) \<Longrightarrow> is_sleep a \<Longrightarrow> a = Sleep 5"
proof (induction ps)
  case Nil
  then show ?case by (simp add: actions_def)
next
  case (Cons p ps)
  then show ?case
    by (auto simp: actions_def [of "(x, y, z)" for x y z] is_sleep_def
        split: if_splits awaited.splits)
qed

text \<open>
  C5. In a pass of the wrapper that starts with the session running: if the body raises
  anything but a cancellation, the wrapper sleeps 5 and, the sleep over, goes round the
  loop again, where it runs the body again if the session is still running; if the body
  is cancelled, the wrapper raises the cancellation; if the cool-down sleep is cancelled,
  the wrapper returns without raising. Every sleep of the wrapper lasts 5.
\<close>

theorem process_while_running_policy:
  "(pass_running p \<and> body p \<in> {Failed, TimedOut} \<and> cool_down p = Completed ()
      \<longrightarrow> process_while_running (p # ps) = after [RunBody, Sleep 5] (process_while_running ps))
   \<and> (pass_running p \<and> body p \<in> {Failed, TimedOut} \<and> cool_down p = Completed ()
       \<and> pass_running q
      \<longrightarrow> (\<exists>rest. actions (process_while_running (p # q # ps))
                    = [RunBody, Sleep 5, RunBody] @ rest))
   \<and> (pass_running p \<and> body p = WasCancelled
      \<longrightarrow> process_while_running (p # ps) = (Raises CancelledError, (), [RunBody]))
   \<and> (pass_running p \<and> body p \<in> {Failed, TimedOut} \<and> cool_down p = WasCancelled
      \<longrightarrow> process_while_running (p # ps) = (Returns, (), [RunBody, Sleep 5]))
   \<and> (\<forall>a \<in> set (actions (process_while_running ps)). is_sleep a \<longrightarrow> a = Sleep 5)"
proof -
  have 2: "\<exists>rest. actions (process_while_running (p # q # ps)) = [RunBody, Sleep 5, RunBody] @ rest"
    if "pass_running p \<and> body p \<in> {Failed, TimedOut} \<and> cool_down p = Completed ()
       \<and> pass_running q"
  proof -
    have "\<exists>rest. actions (process_while_running (q # ps)) = RunBody # rest"
      using that by (auto simp: actions_def [of "(x, y, z)" for x y z] split: awaited.splits)
    then show ?thesis using that by auto
  qed
  show ?thesis
    using 2 process_while_running_sleeps by auto
qed

theorem process_while_running_policy_witness:
  "process_while_running
     [\<lparr>pass_running = True, body = Failed, cool_down = Completed ()\<rparr>,
      \<lparr>pass_running = True, body = WasCancelled, cool_down = Completed ()\<rparr>]
     = (Raises CancelledError, (), [RunBody, Sleep 5, RunBody])
   \<and> process_while_running
     [\<lparr>pass_running = True, body = Failed, cool_down = WasCancelled\<rparr>,
      \<lparr>pass_running = True, body = Failed, cool_down = Completed ()\<rparr>]
     = (Returns, (), [RunBody, Sleep 5])
   \<and> list_all (\<lambda>a. is_sleep a = (a = Sleep 5))
       (actions (process_while_running
         [\<lparr>pass_running = True, body = Failed, cool_down = Completed ()\<rparr>,
          \<lparr>pass_running = True, body = Completed (), cool_down = Completed ()\<rparr>,
          \<lparr>pass_running = False, body = Failed, cool_down = Completed ()\<rparr>]))"
proof -
  let ?f = "\<lparr>pass_running = True, body = Failed, cool_down = Completed ()\<rparr>"
  let ?c = "\<lparr>pass_running = True, body = WasCancelled, cool_down = Completed ()\<rparr>"
  let ?s = "\<lparr>pass_running = True, body = Failed, cool_down = WasCancelled\<rparr>"
  have c: "process_while_running [?c] = (Raises CancelledError, (), [RunBody])"
    using process_while_running_policy [of ?c "[]"] by simp
  have 1: "process_while_running [?f, ?c] = (Raises CancelledError, (), [RunBody, Sleep 5, RunBody])"
    using process_while_running_policy [of ?f "[?c]"] c by (simp add: after_def)
  have 2: "process_while_running [?s, ?f] = (Returns, (), [RunBody, Sleep 5])"
    using process_while_running_policy [of ?s "[?f]"] by simp
  have 3: "list_all (\<lambda>a. is_sleep a = (a = Sleep 5))
       (actions (process_while_running
         [?f, \<lparr>pass_running = True, body = Completed (), cool_down = Completed ()\<rparr>,
          \<lparr>pass_running = False, body = Failed, cool_down = Completed ()\<rparr>]))"
    by (simp add: actions_def after_def is_sleep_def)
  show ?thesis using 1 2 3 by blast
qed

subsection \<open>The reconnection loop\<close>

lemma actions_triple [simp]: "actions (e, s, as) = as"
  by (simp add: actions_def)

lemma back_off_actions:
  "a \<in> set (actions (back_off c acts self continue)) \<Longrightarrow>
   a \<in> set acts \<or> a = Sleep (real_of_int (randint 5 30 (generator c)))
   \<or> a \<in> set (actions continue)"
  by (cases continue)
    (auto simp: back_off_def after_def Let_def split: awaited.splits)

lemma randint_range: "a \<le> b \<Longrightarrow> a \<le> randint a b u \<and> randint a b u \<le> b"
proof -
  assume "a \<le> b"
  then have "0 < nat (b - a + 1)" by simp
  then have "u mod nat (b - a + 1) < nat (b - a + 1)" by (rule mod_less_divisor)
  then have "int (u mod nat (b - a + 1)) < b - a + 1"
    by (simp only: zless_nat_eq_int_zless)
  then show ?thesis unfolding randint_def by linarith
qed

lemma randint_5_30_unique: "5 \<le> d \<Longrightarrow> d \<le> 30 \<Longrightarrow> \<exists>!u. u < 26 \<and> randint 5 30 u = d"
proof
  assume d: "5 \<le> d" "d \<le> 30"
  show "nat (d - 5) < 26 \<and> randint 5 30 (nat (d - 5)) = d"
    using d by (simp add: randint_def)
  show "u = nat (d - 5)" if "u < 26 \<and> randint 5 30 u = d" for u
  proof -
    have m: "u mod 26 = u" using that by simp
    have "randint 5 30 u = d" using that by blast
    then have "5 + int (u mod 26) = d" by (simp add: randint_def)
    then have "5 + int u = d" unfolding m .
    then show ?thesis by linarith
  qed
qed

lemma randint_5_30_period: "randint 5 30 (u + 26) = randint 5 30 u"
  by (simp add: randint_def)

lemma reconnect_while_running_sleeps:
  assumes "Sleep d \<in> set (actions (reconnect_while_running self force cs))"
  shows "5 \<le> d \<and> d \<le> 30"
  using assms
proof (induction cs arbitrary: self force)
  case Nil
  then show ?case by simp
next
  case (Cons c cs)
  have draw: "5 \<le> randint 5 30 (generator c)" "randint 5 30 (generator c) \<le> 30"
    using randint_range [of 5 30 "generator c"] by simp_all
  have rest: "Sleep d \<in> set (actions (reconnect_while_running s f cs)) \<Longrightarrow> 5 \<le> d \<and> d \<le> 30"
    for s :: "'a MeshInterface" and f
    using Cons.IH [of s f] by simp
  have here: "Sleep d = Sleep (real_of_int (randint 5 30 (generator c))) \<Longrightarrow> 5 \<le> d \<and> d \<le> 30"
    using draw by simp
  show ?case
  proof (cases "cycle_running c")
    case False
    then show ?thesis using Cons.prems(1) by simp
  next
    case True
    show ?thesis
    proof (cases "reconnect c")
      case (Completed did)
      show ?thesis
      proof (cases did)
        case False
        then show ?thesis using Cons.prems(1) True Completed by simp
      next
        case did: True
        show ?thesis
        proof (cases "request_config c")
          case (Completed u)
          then show ?thesis using Cons.prems(1) True \<open>reconnect c = Completed did\<close> did by simp
        next
          case TimedOut
          then show ?thesis
            using Cons.prems(1) True \<open>reconnect c = Completed did\<close> did rest by auto
        next
          case WasCancelled
          then show ?thesis using Cons.prems(1) True \<open>reconnect c = Completed did\<close> did by simp
        next
          case Failed
          then have "Sleep d \<in> set (actions (back_off c
              [CallReconnect force 30, CallRequestConfig (no_nodes self) 60] self
              (reconnect_while_running self force cs)))"
            using Cons.prems(1) True \<open>reconnect c = Completed did\<close> did by simp
          from back_off_actions [OF this] show ?thesis using rest here by auto
        qed
      qed
    next
      case TimedOut
      then show ?thesis using Cons.prems(1) True rest by auto
    next
      case WasCancelled
      then show ?thesis using Cons.prems(1) True by simp
    next
      case Failed
      then have "Sleep d \<in> set (actions (back_off c [CallReconnect force 30] self
              (reconnect_while_running self force cs)))"
        using Cons.prems(1) True by simp
      from back_off_actions [OF this] show ?thesis using rest here by auto
    qed
  qed
qed

lemma reconnect_while_running_first:
  "cycle_running c \<Longrightarrow>
   \<exists>rest. actions (reconnect_while_running self force (c # cs)) = CallReconnect force 30 # rest"
  by (cases "reconnect_while_running self force cs"; cases "reconnect_while_running self True cs")
    (auto simp: back_off_def after_def Let_def split: awaited.splits)

text \<open>
  C4. In a cycle of the reconnection loop that starts with the session running:
  if \<open>reconnect\<close> (awaited with timeout 30) times out, the loop goes round again at once,
  with the same \<open>force\<close> and without sleeping; if \<open>reconnect\<close> succeeds and
  \<open>request_config\<close> (awaited with timeout 60) times out, the loop goes round again at
  once with \<open>force\<close> set; if either step fails otherwise, the loop sleeps
  \<^verbatim>\<open>random.randint(5, 30)\<close> and then goes round again with \<open>force\<close> as it was. Going
  round again starts with \<open>reconnect\<close> if the session is still running. Every sleep of
  the loop lasts between 5 and 30; and the draw is uniform over the integers from 5 to 30
  as far as the generator is: each of them is the draw for exactly one of any 26
  successive numbers of the generator.
\<close>

theorem reconnect_while_running_policy:
  "(cycle_running c \<and> reconnect c = TimedOut
      \<longrightarrow> reconnect_while_running self force (c # cs)
          = after [CallReconnect force 30] (reconnect_while_running self force cs))
   \<and> (cycle_running c \<and> reconnect c = Completed True \<and> request_config c = TimedOut
      \<longrightarrow> reconnect_while_running self force (c # cs)
          = after [CallReconnect force 30, CallRequestConfig (no_nodes self) 60]
              (reconnect_while_running self True cs))
   \<and> (cycle_running c \<and> reconnect c = Failed \<and> backoff_sleep c = Completed ()
      \<longrightarrow> reconnect_while_running self force (c # cs)
          = after [CallReconnect force 30, Sleep (real_of_int (randint 5 30 (generator c)))]
              (reconnect_while_running self force cs))
   \<and> (cycle_running c \<and> reconnect c = Completed True \<and> request_config c = Failed
       \<and> backoff_sleep c = Completed ()
      \<longrightarrow> reconnect_while_running self force (c # cs)
          = after [CallReconnect force 30, CallRequestConfig (no_nodes self) 60,
                   Sleep (real_of_int (randint 5 30 (generator c)))]
              (reconnect_while_running self force cs))
   \<and> (cycle_running c
      \<longrightarrow> (\<exists>rest. actions (reconnect_while_running self force (c # cs))
                    = CallReconnect force 30 # rest))
   \<and> (\<forall>d. Sleep d \<in> set (actions (reconnect_while_running self force cs))
          \<longrightarrow> 5 \<le> d \<and> d \<le> 30)
   \<and> 5 \<le> randint 5 30 u \<and> randint 5 30 u \<le> 30
   \<and> (5 \<le> k \<and> k \<le> 30 \<longrightarrow> (\<exists>!v. v < 26 \<and> randint 5 30 v = k))
   \<and> randint 5 30 (u + 26) = randint 5 30 u"
proof -
  have 5: "cycle_running c
      \<longrightarrow> (\<exists>rest. actions (reconnect_while_running self force (c # cs))
                    = CallReconnect force 30 # rest)"
    using reconnect_while_running_first by blast
  have 6: "\<forall>d. Sleep d \<in> set (actions (reconnect_while_running self force cs))
                \<longrightarrow> 5 \<le> d \<and> d \<le> 30"
    using reconnect_while_running_sleeps by blast
  have 7: "5 \<le> randint 5 30 u \<and> randint 5 30 u \<le> 30"
    using randint_range [of 5 30 u] by simp
  have 8: "5 \<le> k \<and> k \<le> 30 \<longrightarrow> (\<exists>!v. v < 26 \<and> randint 5 30 v = k)"
    using randint_5_30_unique by blast
  have 34: "back_off c acts self r
      = after (acts @ [Sleep (real_of_int (randint 5 30 (generator c)))]) r"
    if "backoff_sleep c = Completed ()" for acts r
    using that by (simp add: back_off_def)
  have 1234: "(cycle_running c \<and> reconnect c = TimedOut
      \<longrightarrow> reconnect_while_running self force (c # cs)
          = after [CallReconnect force 30] (reconnect_while_running self force cs))
   \<and> (cycle_running c \<and> reconnect c = Completed True \<and> request_config c = TimedOut
      \<longrightarrow> reconnect_while_running self force (c # cs)
          = after [CallReconnect force 30, CallRequestConfig (no_nodes self) 60]
              (reconnect_while_running self True cs))
   \<and> (cycle_running c \<and> reconnect c = Failed \<and> backoff_sleep c = Completed ()
      \<longrightarrow> reconnect_while_running self force (c # cs)
          = after [CallReconnect force 30, Sleep (real_of_int (randint 5 30 (generator c)))]
              (reconnect_while_running self force cs))
   \<and> (cycle_running c \<and> reconnect c = Completed True \<and> request_config c = Failed
       \<and> backoff_sleep c = Completed ()
      \<longrightarrow> reconnect_while_running self force (c # cs)
          = after [CallReconnect force 30, CallRequestConfig (no_nodes self) 60,
                   Sleep (real_of_int (randint 5 30 (generator c)))]
              (reconnect_while_running self force cs))"
    by (simp add: 34)
  show ?thesis using 1234 5 6 7 8 randint_5_30_period [of u] by blast
qed

theorem reconnect_while_running_policy_witness:
  "reconnect_while_running example_session False
     [\<lparr>cycle_running = True, reconnect = TimedOut, request_config = Completed (),
       generator = 12, backoff_sleep = Completed ()\<rparr>,
      \<lparr>cycle_running = True, reconnect = Completed True, request_config = TimedOut,
       generator = 12, backoff_sleep = Completed ()\<rparr>,
      \<lparr>cycle_running = True, reconnect = Failed, request_config = Completed (),
       generator = 12, backoff_sleep = Completed ()\<rparr>,
      \<lparr>cycle_running = True, reconnect = Completed True, request_config = Completed (),
       generator = 12, backoff_sleep = Completed ()\<rparr>]
   = (Returns, example_session,
      [CallReconnect False 30,
       CallReconnect False 30, CallRequestConfig False 60,
       CallReconnect True 30, Sleep 17,
       CallReconnect True 30, CallRequestConfig False 60])
   \<and> randint 5 30 12 = 17 \<and> randint 5 30 1000 = 17
   \<and> (\<exists>!v. v < 26 \<and> randint 5 30 v = 17)
   \<and> Sleep 17 \<in> set (actions (reconnect_while_running example_session True
       [\<lparr>cycle_running = True, reconnect = Failed, request_config = Completed (),
         generator = 1000, backoff_sleep = Completed ()\<rparr>,
        \<lparr>cycle_running = False, reconnect = Failed, request_config = Completed (),
         generator = 12, backoff_sleep = Completed ()\<rparr>]))
   \<and> (5::real) \<le> 17 \<and> (17::real) \<le> 30"
proof -
  let ?t = "\<lparr>cycle_running = True, reconnect = TimedOut, request_config = Completed (),
       generator = 12, backoff_sleep = Completed ()\<rparr>"
  let ?c = "\<lparr>cycle_running = True, reconnect = Completed True, request_config = TimedOut,
       generator = 12, backoff_sleep = Completed ()\<rparr>"
  let ?f = "\<lparr>cycle_running = True, reconnect = Failed, request_config = Completed (),
       generator = 12, backoff_sleep = Completed ()\<rparr>"
  let ?k = "\<lparr>cycle_running = True, reconnect = Completed True, request_config = Completed (),
       generator = 12, backoff_sleep = Completed ()\<rparr>"
  have r: "example_session\<lparr>connected_node_ready := True\<rparr> = example_session"
    by (simp add: example_session_def)
  have n: "no_nodes example_session = False" by (simp add: example_session_def)
  have d: "randint 5 30 12 = 17" "randint 5 30 1000 = 17" by (simp_all add: randint_def)
  have 4: "reconnect_while_running example_session True [?k]
    = (Returns, example_session, [CallReconnect True 30, CallRequestConfig False 60])"
    by (simp add: r n)
  have 3: "reconnect_while_running example_session True [?f, ?k]
    = (Returns, example_session,
       [CallReconnect True 30, Sleep 17, CallReconnect True 30, CallRequestConfig False 60])"
    using reconnect_while_running_policy
      [where c = ?f and self = example_session and force = True and cs = "[?k]"]
    unfolding 4 by (simp add: after_def d)
  have 2: "reconnect_while_running example_session False [?c, ?f, ?k]
    = (Returns, example_session,
       [CallReconnect False 30, CallRequestConfig False 60,
        CallReconnect True 30, Sleep 17, CallReconnect True 30, CallRequestConfig False 60])"
    using reconnect_while_running_policy
      [where c = ?c and self = example_session and force = False and cs = "[?f, ?k]"]
    unfolding 3 by (simp add: after_def n)
  have 1: "reconnect_while_running example_session False [?t, ?c, ?f, ?k]
    = (Returns, example_session,
      [CallReconnect False 30,
       CallReconnect False 30, CallRequestConfig False 60,
       CallReconnect True 30, Sleep 17,
       CallReconnect True 30, CallRequestConfig False 60])"
    using reconnect_while_running_policy
      [where c = ?t and self = example_session and force = False and cs = "[?c, ?f, ?k]"]
    unfolding 2 by (simp add: after_def)
  let ?g = "\<lparr>cycle_running = True, reconnect = Failed, request_config = Completed (),
         generator = 1000, backoff_sleep = Completed ()\<rparr>"
  let ?e = "\<lparr>cycle_running = False, reconnect = Failed, request_config = Completed (),
         generator = 12, backoff_sleep = Completed ()\<rparr>"
  have s: "Sleep 17 \<in> set (actions (reconnect_while_running example_session True [?g, ?e]))"
    by (simp add: back_off_def after_def d)
  have b: "(5::real) \<le> 17 \<and> (17::real) \<le> 30"
    using reconnect_while_running_policy
      [where self = example_session and force = True and cs = "[?g, ?e]"] s
    by blast
  have k: "(5::int) \<le> 17 \<and> (17::int) \<le> 30" by simp
  have u: "\<exists>!v. v < 26 \<and> randint 5 30 v = 17"
    using reconnect_while_running_policy [where k = 17] k by blast
  show ?thesis using 1 d s b u by blast
qed

subsection \<open>Timeouts of the correlator\<close>

lemma wait_first_completed_timeout:
  assumes "\<not> completed_by abort_at t" and "\<not> completed_by send_at t"
  shows "wait_first_completed t abort_at send_at = ({}, t)"
  using assms
  by (cases abort_at; cases send_at)
    (auto simp: wait_first_completed_def completed_by_def Let_def min_def)

lemma send_message_await_response_timeout:
  assumes "\<not> completed_by (abort_done_at ex) (actual_timeout self want_response timeout)"
    and "\<not> completed_by (map_option fst (send_done_at ex)) (actual_timeout self want_response timeout)"
  shows "send_message_await_response self ex want_response timeout =
     (Inl (MeshInterfaceRequestError
        ((if completed_by (map_option fst (ack_at ex)) (actual_timeout self want_response timeout)
          then NoResponse else NoAcknowledgement) (actual_timeout self want_response timeout))),
      actual_timeout self want_response timeout)"
  using wait_first_completed_timeout [OF assms]
  by (simp add: send_message_await_response_def Let_def)

lemma abort_done_at_no_ack:
  "\<not> completed_by (map_option fst (ack_at ex)) t \<Longrightarrow> \<not> completed_by (abort_done_at ex) t"
  by (auto simp: abort_done_at_def completed_by_def split: option.splits if_splits)

text \<open>
  C1, as the code has it. A request has one deadline, \<open>actual_timeout\<close>: the timeout given
  with the call, or else the response timeout of the session when a response is wanted
  and its acknowledgement timeout when none is. If the task of the send has not completed
  by the deadline, then: if no acknowledgement has been observed by then the request fails
  at the deadline with the error "no acknowledgement"; if an acknowledgement without
  protocol error has been observed it fails at the deadline with the error "no response".
  So a request that is never acknowledged fails after the acknowledgement timeout when
  it wants no response, and after the response timeout when it wants one.
\<close>

theorem correlator_timeouts:
  "(\<not> completed_by (map_option fst (ack_at ex)) (actual_timeout self want_response timeout)
    \<and> \<not> completed_by (map_option fst (send_done_at ex)) (actual_timeout self want_response timeout)
    \<longrightarrow> send_message_await_response self ex want_response timeout
        = (Inl (MeshInterfaceRequestError
             (NoAcknowledgement (actual_timeout self want_response timeout))),
           actual_timeout self want_response timeout))
   \<and> ((\<exists>t. ack_at ex = Some (t, 0) \<and> t \<le> actual_timeout self want_response timeout)
    \<and> \<not> completed_by (map_option fst (send_done_at ex)) (actual_timeout self want_response timeout)
    \<longrightarrow> send_message_await_response self ex want_response timeout
        = (Inl (MeshInterfaceRequestError
             (NoResponse (actual_timeout self want_response timeout))),
           actual_timeout self want_response timeout))
   \<and> actual_timeout self False None = ack_timeout self
   \<and> actual_timeout self True None = response_timeout self
   \<and> actual_timeout self want_response (Some t) = t"
proof -
  let ?T = "actual_timeout self want_response timeout"
  have 1: "send_message_await_response self ex want_response timeout
        = (Inl (MeshInterfaceRequestError (NoAcknowledgement ?T)), ?T)"
    if "\<not> completed_by (map_option fst (ack_at ex)) ?T
      \<and> \<not> completed_by (map_option fst (send_done_at ex)) ?T"
    using that send_message_await_response_timeout [of ex self want_response timeout]
      abort_done_at_no_ack [of ex ?T]
    by simp
  have 2: "send_message_await_response self ex want_response timeout
        = (Inl (MeshInterfaceRequestError (NoResponse ?T)), ?T)"
    if h: "(\<exists>t. ack_at ex = Some (t, 0) \<and> t \<le> ?T)
      \<and> \<not> completed_by (map_option fst (send_done_at ex)) ?T"
  proof -
    have "\<not> completed_by (abort_done_at ex) ?T"
      using h by (auto simp: abort_done_at_def completed_by_def)
    moreover have "completed_by (map_option fst (ack_at ex)) ?T"
      using h by (auto simp: completed_by_def)
    ultimately show ?thesis
      using h send_message_await_response_timeout [of ex self want_response timeout] by simp
  qed
  have 3: "actual_timeout self False None = ack_timeout self"
    "actual_timeout self True None = response_timeout self"
    "actual_timeout self want_response (Some t) = t"
    by (simp_all add: actual_timeout_def)
  show ?thesis using 1 2 3 by blast
qed

lemma example_timeouts:
  "ack_timeout example_session = 30" "response_timeout example_session = 60"
  by (simp_all add: example_session_def)

theorem correlator_timeouts_witness:
  "send_message_await_response example_session
     \<lparr>ack_at = None, send_done_at = (None :: (real \<times> (py_error + unit)) option)\<rparr> False None
     = (Inl (MeshInterfaceRequestError (NoAcknowledgement 30)), 30)
   \<and> send_message_await_response example_session
     \<lparr>ack_at = Some (2, 0), send_done_at = (None :: (real \<times> (py_error + unit)) option)\<rparr> True None
     = (Inl (MeshInterfaceRequestError (NoResponse 60)), 60)"
proof -
  let ?n = "\<lparr>ack_at = None, send_done_at = (None :: (real \<times> (py_error + unit)) option)\<rparr>"
  let ?a = "\<lparr>ack_at = Some (2, 0), send_done_at = (None :: (real \<times> (py_error + unit)) option)\<rparr>"
  have 1: "send_message_await_response example_session ?n False None
     = (Inl (MeshInterfaceRequestError (NoAcknowledgement 30)), 30)"
    using correlator_timeouts [of ?n example_session False None]
    by (simp add: completed_by_def example_timeouts)
  have 2: "send_message_await_response example_session ?a True None
     = (Inl (MeshInterfaceRequestError (NoResponse 60)), 60)"
    using correlator_timeouts [of ?a example_session True None]
    by (simp add: completed_by_def example_timeouts)
  show ?thesis using 1 2 by blast
qed

text \<open>
  The claim as the specification states it fails for a request that wants a response:
  with the timeouts 30 and 60 of the example and no acknowledgement ever, the request fails
  with "no acknowledgement" at time 60, the response timeout, not at 30.
\<close>

theorem ack_timeout_counterexample:
  "ack_timeout example_session = 30 \<and> response_timeout example_session = 60
   \<and> send_message_await_response example_session
       \<lparr>ack_at = None, send_done_at = (None :: (real \<times> (py_error + unit)) option)\<rparr> True None
     = (Inl (MeshInterfaceRequestError (NoAcknowledgement 60)), 60)"
  by (simp add: send_message_await_response_def wait_first_completed_def abort_done_at_def
      completed_by_def actual_timeout_def example_session_def)

end
